theory Spec2Isabelle
  imports Complex_Main
begin

section \<open>Progress store (store.ts)\<close>

text \<open>
  The zustand store of the game.  Its state is a record; every action is a function from
  the state before the call to the state after it (and the returned value, where the
  action returns one).  Numbers that the program only ever uses as integers (score, lives,
  level, lane count, damage per shot, letter indices) are \<open>int\<close>; speed, distance and
  time are \<open>real\<close>.
\<close>

datatype GameStatus = MENU | PLAYING | SHOP | GAME_OVER | VICTORY

record GameState =
  status :: GameStatus
  score :: int
  lives :: int
  maxLives :: int
  speed :: real
  collectedLetters :: "int list"
  level :: int
  laneCount :: int
  gemsCollected :: int
  distance :: real
  gameTime :: real
  isSlowMotion :: bool
  damagePerShot :: int
  hasSpreadShot :: bool
  hasImmortality :: bool
  isImmortalityActive :: bool

definition GEMINI_TARGET :: "string list" where
  "GEMINI_TARGET = [''G'', ''E'', ''M'', ''I'', ''N'', ''I'']"

definition MAX_LEVEL :: int where
  "MAX_LEVEL = 50"

definition RUN_SPEED_BASE :: real where
  "RUN_SPEED_BASE = 6.0"

text \<open>The state the store is created with, and the state \<open>startGame\<close> sets.\<close>

definition initialState :: GameState where
  "initialState = \<lparr> status = MENU, score = 0, lives = 3, maxLives = 3, speed = 0,
     collectedLetters = [], level = 1, laneCount = 3, gemsCollected = 0, distance = 0,
     gameTime = 0, isSlowMotion = False, damagePerShot = 1, hasSpreadShot = False,
     hasImmortality = False, isImmortalityActive = False \<rparr>"

definition startGame :: "GameState \<Rightarrow> GameState" where
  "startGame g = \<lparr> status = PLAYING, score = 0, lives = 3, maxLives = 3,
     speed = RUN_SPEED_BASE, collectedLetters = [], level = 1, laneCount = 3,
     gemsCollected = 0, distance = 0, gameTime = 0, isSlowMotion = False,
     damagePerShot = 1, hasSpreadShot = False, hasImmortality = False,
     isImmortalityActive = False \<rparr>"

definition takeDamage :: "GameState \<Rightarrow> GameState" where
  "takeDamage g =
     (if isImmortalityActive g then g
      else if lives g > 1 then g\<lparr>lives := lives g - 1\<rparr>
      else g\<lparr>lives := 0, status := GAME_OVER, speed := 0\<rparr>)"

definition addScore :: "int \<Rightarrow> GameState \<Rightarrow> GameState" where
  "addScore amount g = g\<lparr>score := score g + amount\<rparr>"

definition collectGem :: "int \<Rightarrow> GameState \<Rightarrow> GameState" where
  "collectGem v g = g\<lparr>score := score g + v, gemsCollected := gemsCollected g + 1\<rparr>"

definition setDistance :: "real \<Rightarrow> GameState \<Rightarrow> GameState" where
  "setDistance d g = g\<lparr>distance := d\<rparr>"

definition updateTime :: "real \<Rightarrow> GameState \<Rightarrow> GameState" where
  "updateTime delta g = g\<lparr>gameTime := gameTime g + delta\<rparr>"

definition advanceLevel :: "GameState \<Rightarrow> GameState" where
  "advanceLevel g =
     g\<lparr>level := level g + 1,
       laneCount := min (laneCount g + 2) 9,
       status := PLAYING,
       speed := speed g * 1.05,
       collectedLetters := []\<rparr>"

text \<open>
  \<open>collectLetter\<close> reads \<open>collectedLetters\<close>, \<open>level\<close> and \<open>speed\<close> once, at entry;
  \<open>advanceLevel\<close> reads the store again, after the first \<open>set\<close>, so it sees the
  speed already raised by one percent.
\<close>

definition collectLetter :: "int \<Rightarrow> GameState \<Rightarrow> GameState" where
  "collectLetter index g =
     (if index \<notin> set (collectedLetters g) then
        (let newLetters = collectedLetters g @ [index];
             speedIncrease = speed g * 0.01;
             nextSpeed = speed g + speedIncrease;
             g1 = g\<lparr>collectedLetters := newLetters, speed := nextSpeed\<rparr>
         in if length newLetters = length GEMINI_TARGET then
              (if level g < MAX_LEVEL then advanceLevel g1
               else g1\<lparr>status := VICTORY, score := score g1 + 50000\<rparr>)
            else g1)
      else g)"

definition openShop :: "GameState \<Rightarrow> GameState" where
  "openShop g = g\<lparr>status := SHOP\<rparr>"

definition closeShop :: "GameState \<Rightarrow> GameState" where
  "closeShop g = g\<lparr>status := PLAYING\<rparr>"

datatype ItemType = HEAVY_AMMO | SPREAD_SHOT | MAX_LIFE | HEAL

text \<open>
  \<open>buyItem\<close> returns the boolean of the source together with the new state.  The values
  \<open>score\<close>, \<open>maxLives\<close>, \<open>lives\<close> and \<open>damagePerShot\<close> are those read at entry.
\<close>

definition buyItem :: "ItemType \<Rightarrow> int \<Rightarrow> GameState \<Rightarrow> bool \<times> GameState" where
  "buyItem ty cost g =
     (if score g \<ge> cost then
        (let g1 = g\<lparr>score := score g - cost\<rparr>
         in (True,
             case ty of
               HEAVY_AMMO \<Rightarrow> g1\<lparr>damagePerShot := damagePerShot g + 1\<rparr>
             | SPREAD_SHOT \<Rightarrow> g1\<lparr>hasSpreadShot := True\<rparr>
             | MAX_LIFE \<Rightarrow> g1\<lparr>maxLives := maxLives g + 1, lives := lives g + 1\<rparr>
             | HEAL \<Rightarrow> g1\<lparr>lives := min (lives g + 1) (maxLives g)\<rparr>))
      else (False, g))"

section \<open>Numbers of the simulation\<close>

text \<open>
  Coordinates and velocities are JavaScript numbers.  They are modelled as reals extended
  by \<open>NaN\<close>, the one non-finite value the tick can compute from finite inputs (the
  direction of a shot of length zero, \<open>0/0\<close>).  Every arithmetic operation propagates
  \<open>NaN\<close>, every comparison with \<open>NaN\<close> is false, and \<open>Math.max\<close>/\<open>Math.min\<close> return
  \<open>NaN\<close> when an argument is \<open>NaN\<close>, as in the language.  Rounding is not modelled.

  \<open>jdiv\<close>: dividing a non-zero number by zero gives an infinity in JavaScript, which this
  type does not have.  The only division of the tick divides a difference of coordinates
  by the length of the difference vector, which is zero only when the dividend is zero
  (lemma \<open>aim_zero_length\<close> below), so that case never arises.
\<close>

datatype jsnum = Num real | NaN

fun jadd :: "jsnum \<Rightarrow> jsnum \<Rightarrow> jsnum" where
  "jadd (Num a) (Num b) = Num (a + b)"
| "jadd _ _ = NaN"

fun jsub :: "jsnum \<Rightarrow> jsnum \<Rightarrow> jsnum" where
  "jsub (Num a) (Num b) = Num (a - b)"
| "jsub _ _ = NaN"

fun jmul :: "jsnum \<Rightarrow> jsnum \<Rightarrow> jsnum" where
  "jmul (Num a) (Num b) = Num (a * b)"
| "jmul _ _ = NaN"

fun jdiv :: "jsnum \<Rightarrow> jsnum \<Rightarrow> jsnum" where
  "jdiv (Num a) (Num b) = (if b = 0 then NaN else Num (a / b))"
| "jdiv _ _ = NaN"

fun jsqrt :: "jsnum \<Rightarrow> jsnum" where
  "jsqrt (Num a) = (if a < 0 then NaN else Num (sqrt a))"
| "jsqrt NaN = NaN"

fun jabs :: "jsnum \<Rightarrow> jsnum" where
  "jabs (Num a) = Num \<bar>a\<bar>"
| "jabs NaN = NaN"

fun jlt :: "jsnum \<Rightarrow> jsnum \<Rightarrow> bool" where
  "jlt (Num a) (Num b) = (a < b)"
| "jlt _ _ = False"

definition jgt :: "jsnum \<Rightarrow> jsnum \<Rightarrow> bool" where
  "jgt a b = jlt b a"

fun jmax :: "jsnum \<Rightarrow> jsnum \<Rightarrow> jsnum" where
  "jmax (Num a) (Num b) = Num (max a b)"
| "jmax _ _ = NaN"

fun jmin :: "jsnum \<Rightarrow> jsnum \<Rightarrow> jsnum" where
  "jmin (Num a) (Num b) = Num (min a b)"
| "jmin _ _ = NaN"

type_synonym vec3 = "jsnum \<times> jsnum \<times> jsnum"

section \<open>Entities (types.ts)\<close>

datatype ObjectType =
  OBSTACLE | BARREL | GEM | LETTER | SHOP_PORTAL | ALIEN | MISSILE | BULLET | ENEMY_BULLET

datatype EnemyVariant = GREEN_ALIEN | SAUCER | ARMORED

text \<open>
  \<open>GameObject\<close>, with every optional field an \<open>option\<close>.  The field \<open>vx\<close> is the lateral
  velocity that the shot handler attaches to a bullet as a dynamic property.
\<close>

record GameObject =
  id' :: string
  type :: ObjectType
  position :: vec3
  active :: bool
  value' :: "string option"
  color :: "string option"
  targetIndex :: "int option"
  points :: "int option"
  hasFired :: "bool option"
  lastShotTime :: "real option"
  strafeOffset :: "real option"
  health :: "int option"
  maxHealth :: "int option"
  variant :: "EnemyVariant option"
  velocity :: "vec3 option"
  scale :: "real option"
  speedBonus :: "real option"
  vx :: "real option"

definition LANE_WIDTH :: real where "LANE_WIDTH = 2.2"
definition SPAWN_DISTANCE :: real where "SPAWN_DISTANCE = 120"
definition REMOVE_DISTANCE :: real where "REMOVE_DISTANCE = 20"
definition BASE_LETTER_INTERVAL :: real where "BASE_LETTER_INTERVAL = 150"
definition MISSILE_SPEED :: real where "MISSILE_SPEED = 30"
definition BULLET_SPEED :: real where "BULLET_SPEED = 60"
definition ENEMY_BULLET_SPEED :: real where "ENEMY_BULLET_SPEED = 20"

definition GEMINI_COLORS :: "string list" where
  "GEMINI_COLORS = [''#2979ff'', ''#ff1744'', ''#ffea00'', ''#2979ff'', ''#00e676'', ''#ff1744'']"

definition getLetterInterval :: "int \<Rightarrow> real" where
  "getLetterInterval lv = BASE_LETTER_INTERVAL * (3 / 2) ^ nat (max 0 (lv - 1))"

definition px :: "GameObject \<Rightarrow> jsnum" where "px obj = fst (position obj)"
definition py :: "GameObject \<Rightarrow> jsnum" where "py obj = fst (snd (position obj))"
definition pz :: "GameObject \<Rightarrow> jsnum" where "pz obj = snd (snd (position obj))"

text \<open>The defaults of the source: \<open>obj.scale || 1\<close>, \<open>obj.points || 50\<close>,
  \<open>obj.color || '#ffffff'\<close>; zero and the empty string are falsy.\<close>

definition scaleOr1 :: "GameObject \<Rightarrow> real" where
  "scaleOr1 obj = (case scale obj of None \<Rightarrow> 1 | Some s \<Rightarrow> if s = 0 then 1 else s)"

definition pointsOr50 :: "GameObject \<Rightarrow> int" where
  "pointsOr50 obj = (case points obj of None \<Rightarrow> 50 | Some p \<Rightarrow> if p = 0 then 50 else p)"

definition colorOrWhite :: "GameObject \<Rightarrow> string" where
  "colorOrWhite obj =
     (case color obj of None \<Rightarrow> ''#ffffff'' | Some c \<Rightarrow> if c = [] then ''#ffffff'' else c)"

text \<open>An object literal: the fields the literal does not mention are undefined.\<close>

definition newObject :: "string \<Rightarrow> ObjectType \<Rightarrow> vec3 \<Rightarrow> GameObject" where
  "newObject i ty pos =
     \<lparr> id' = i, type = ty, position = pos, active = True, value' = None, color = None,
       targetIndex = None, points = None, hasFired = None, lastShotTime = None,
       strafeOffset = None, health = None, maxHealth = None, variant = None,
       velocity = None, scale = None, speedBonus = None, vx = None \<rparr>"

section \<open>The frame callback of LevelManager\<close>

text \<open>
  What the callback emits and does not wait for: window events and audio calls, in the
  order of emission.  The \<open>player-hit\<close> event is handled by the Player component, outside
  the tick.
\<close>

datatype Effect =
    PlayerHit
  | ParticleBurst vec3 string
  | PlayShoot
  | PlayExplosion
  | PlayGemCollect
  | PlayLetterCollect

text \<open>
  \<open>Math.random\<close>, \<open>uuidv4\<close> and the comparator-driven \<open>sort\<close> are inputs of the tick: one
  value for each call site, indexed by the entity or the loop counter where the call is in
  a loop.  \<open>shuffle\<close> is what \<open>availableLanes.sort(() => Math.random() - 0.5)\<close> leaves in
  the array.
\<close>

record Random =
  strafeRoll :: "nat \<Rightarrow> real"
  shotRoll :: "nat \<Rightarrow> real"
  laneRoll :: real
  letterRoll :: real
  skipRoll :: real
  obstacleRoll :: real
  alienRoll :: real
  shuffle :: "int list \<Rightarrow> int list"
  pAlien :: real
  pGroup :: real
  archetypeRoll :: "nat \<Rightarrow> real"
  bonusGemRoll :: "nat \<Rightarrow> real"
  uuidv4 :: "nat \<Rightarrow> string"

text \<open>
  The arguments of the callback (\<open>delta\<close>, the clock, the player's world position if the
  player object is attached) and the values of one tick that the loop reads:
  \<open>props\<close> are the store values the component destructured when it rendered.
\<close>

record Frame =
  delta :: real
  elapsedTime :: real
  playerObj :: "(real \<times> real \<times> real) option"
  random :: Random

record Env =
  safeDelta :: real
  time :: real
  dist' :: real
  playerX :: real
  playerY :: real
  playerZ :: real
  props :: GameState
  rnd :: Random

text \<open>
  The state of the loop over \<open>currentObjects\<close>.  The loop mutates the entities in place,
  and \<open>targets\<close> and \<open>keptObjects\<close> hold references to the same entities: the entities
  live in \<open>currentObjects\<close>, and \<open>targets\<close> and \<open>keptObjects\<close> are lists of indices into it.
\<close>

record Loop =
  currentObjects :: "GameObject list"
  keptObjects :: "nat list"
  newSpawns :: "GameObject list"
  hasChanges :: bool
  store :: GameState
  events :: "Effect list"

definition modify :: "nat \<Rightarrow> (GameObject \<Rightarrow> GameObject) \<Rightarrow> Loop \<Rightarrow> Loop" where
  "modify i f s = s\<lparr>currentObjects := (currentObjects s)[i := f (currentObjects s ! i)]\<rparr>"

definition emit :: "Effect \<Rightarrow> Loop \<Rightarrow> Loop" where
  "emit e s = s\<lparr>events := events s @ [e]\<rparr>"

subsection \<open>Movement\<close>

definition move :: "Env \<Rightarrow> GameObject \<Rightarrow> GameObject" where
  "move E obj =
     (if type obj = BULLET then
        (let z1 = jsub (pz obj) (Num (BULLET_SPEED * safeDelta E));
             v = (case vx obj of None \<Rightarrow> 0 | Some w \<Rightarrow> w)
         in obj\<lparr>position := (jadd (px obj) (Num (v * safeDelta E)), py obj, z1)\<rparr>)
      else if type obj = ENEMY_BULLET then
        (case velocity obj of
           Some (v0, v1, v2) \<Rightarrow>
             obj\<lparr>position := (jadd (px obj) (jmul v0 (Num (safeDelta E))),
                               jadd (py obj) (jmul v1 (Num (safeDelta E))),
                               jadd (pz obj) (jmul v2 (Num (safeDelta E))))\<rparr>
         | None \<Rightarrow>
             obj\<lparr>position := (px obj, py obj,
                               jadd (pz obj) (Num (ENEMY_BULLET_SPEED * safeDelta E)))\<rparr>)
      else if type obj = MISSILE then
        obj\<lparr>position := (px obj, py obj,
           jadd (pz obj)
             (Num (dist' E + (if isSlowMotion (props E) then MISSILE_SPEED * 0.5
                             else MISSILE_SPEED) * safeDelta E)))\<rparr>
      else
        (let bonus = (case speedBonus obj of None \<Rightarrow> 0 | Some b \<Rightarrow> b)
         in obj\<lparr>position := (px obj, py obj,
              jadd (pz obj) (Num (dist' E + bonus * safeDelta E)))\<rparr>))"

subsection \<open>Enemy AI\<close>

text \<open>Green alien: strafes; the phase offset is drawn on the first tick.\<close>

definition dodger :: "Env \<Rightarrow> nat \<Rightarrow> GameObject \<Rightarrow> GameObject" where
  "dodger E i obj =
     (if type obj = BARREL \<and> variant obj = Some GREEN_ALIEN \<and> active obj then
        (let off = (case strafeOffset obj of None \<Rightarrow> strafeRoll (rnd E) i * 100
                                          | Some a \<Rightarrow> a);
             strafeAmount = sin (time E * 3 + off) * 2.0 * safeDelta E;
             x1 = jadd (px obj) (Num strafeAmount);
             maxWidth = (real_of_int (laneCount (props E)) * LANE_WIDTH) / 2 + 1
         in obj\<lparr>strafeOffset := Some off,
                position := (jmax (Num (- maxWidth)) (jmin (Num maxWidth) x1), py obj, pz obj)\<rparr>)
      else obj)"

text \<open>
  Saucer: fires every 2.5 seconds.  \<open>aimVelocity\<close> is the velocity of the shot: the
  direction from the saucer to the point half a unit above the player's position, divided
  by its length and scaled by the enemy-bullet speed, halved in slow motion.
\<close>

definition aimVelocity :: "Env \<Rightarrow> GameObject \<Rightarrow> vec3" where
  "aimVelocity E obj =
     (let dx = jsub (Num (playerX E)) (px obj);
          dy = jsub (Num (playerY E + 0.5)) (py obj);
          dz = jsub (Num (playerZ E)) (pz obj);
          mag = jsqrt (jadd (jadd (jmul dx dx) (jmul dy dy)) (jmul dz dz));
          sp = Num (if isSlowMotion (props E) then ENEMY_BULLET_SPEED * 0.5
                    else ENEMY_BULLET_SPEED)
      in (jmul (jdiv dx mag) sp, jmul (jdiv dy mag) sp, jmul (jdiv dz mag) sp))"

definition enemyBullet :: "Env \<Rightarrow> nat \<Rightarrow> GameObject \<Rightarrow> GameObject" where
  "enemyBullet E i obj =
     (newObject (uuidv4 (rnd E) i) ENEMY_BULLET (px obj, py obj, jadd (pz obj) (Num 1)))
       \<lparr>velocity := Some (aimVelocity E obj), color := Some ''#ff0000''\<rparr>"

definition saucer :: "Env \<Rightarrow> nat \<Rightarrow> Loop \<Rightarrow> Loop" where
  "saucer E i s =
     (let obj = currentObjects s ! i
      in if type obj = BARREL \<and> variant obj = Some SAUCER \<and> active obj then
           (let last = (case lastShotTime obj of None \<Rightarrow> time E + shotRoll (rnd E) i
                                               | Some t \<Rightarrow> t)
            in if time E > last + 2.5 then
                 (emit PlayShoot
                    (modify i (\<lambda>ob. ob\<lparr>lastShotTime := Some (time E)\<rparr>) s))
                   \<lparr>newSpawns := newSpawns s @ [enemyBullet E i obj], hasChanges := True\<rparr>
               else modify i (\<lambda>ob. ob\<lparr>lastShotTime := Some last\<rparr>) s)
         else s)"

text \<open>Flyer: fires one missile, once, when it has come closer than 90 units.\<close>

definition missile :: "Env \<Rightarrow> nat \<Rightarrow> GameObject \<Rightarrow> GameObject" where
  "missile E i obj =
     (newObject (uuidv4 (rnd E) i) MISSILE (px obj, Num 1.0, jadd (pz obj) (Num 2)))
       \<lparr>color := Some ''#ff0000'', health := Some (level (props E) * 2)\<rparr>"

definition alienAI :: "Env \<Rightarrow> nat \<Rightarrow> Loop \<Rightarrow> Loop" where
  "alienAI E i s =
     (let obj = currentObjects s ! i
      in if type obj = ALIEN \<and> active obj \<and> hasFired obj \<noteq> Some True then
           (if jgt (pz obj) (Num (- 90)) then
              (emit (ParticleBurst (position obj) ''#ff00ff'')
                 (modify i (\<lambda>ob. ob\<lparr>hasFired := Some True\<rparr>) s))
                \<lparr>newSpawns := newSpawns s @ [missile E i obj], hasChanges := True\<rparr>
            else s)
         else s)"

subsection \<open>Collision and damage\<close>

text \<open>
  Each of the following functions returns the local variable \<open>keep\<close> of the loop body
  together with the new loop state.  They are called for an entity that is active.
\<close>

definition magnet :: "Env \<Rightarrow> nat \<Rightarrow> Loop \<Rightarrow> bool \<times> Loop" where
  "magnet E i s =
     (let obj = currentObjects s ! i
      in if type obj = GEM then
           (let ex = jsub (Num (playerX E)) (px obj);
                ey = jsub (Num (playerY E)) (py obj);
                ez = jsub (Num (playerZ E)) (pz obj);
                distSq = jadd (jadd (jmul ex ex) (jmul ey ey)) (jmul ez ez)
            in if jlt distSq (Num 25) then
                 (False,
                  (modify i (\<lambda>ob. ob\<lparr>active := False\<rparr>)
                     (emit (ParticleBurst (position obj) (colorOrWhite obj))
                        (emit PlayGemCollect
                           (s\<lparr>store := collectGem (pointsOr50 obj) (store s)\<rparr>))))
                    \<lparr>hasChanges := True\<rparr>)
               else (True, s))
         else (True, s))"

text \<open>
  A bullet \<open>i\<close> hits the target \<open>t\<close>: the bullet is destroyed, the target loses
  \<open>damagePerShot\<close> health (a target without health gets health 0), and a target whose
  health is then not positive is destroyed and pays 50 points through \<open>collectGem\<close>.
\<close>

definition hitTarget :: "Env \<Rightarrow> nat \<Rightarrow> nat \<Rightarrow> Loop \<Rightarrow> Loop" where
  "hitTarget E i t s =
     (let s1 = (modify i (\<lambda>ob. ob\<lparr>active := False\<rparr>) s)\<lparr>hasChanges := True\<rparr>;
          h = (case health (currentObjects s1 ! t) of
                 Some h0 \<Rightarrow> h0 - damagePerShot (props E)
               | None \<Rightarrow> 0);
          s2 = modify t (\<lambda>tg. tg\<lparr>health := Some h\<rparr>) s1;
          target = currentObjects s2 ! t;
          s3 = emit (ParticleBurst (position target) ''#ffffff'') s2
      in if h \<le> 0 then
           emit (ParticleBurst (position target) ''#ffaa00'')
             (emit PlayExplosion
                ((modify t (\<lambda>tg. tg\<lparr>active := False\<rparr>) s3)
                   \<lparr>store := collectGem 50 (store s3)\<rparr>))
         else emit PlayShoot s3)"

definition overlaps :: "GameObject \<Rightarrow> GameObject \<Rightarrow> bool" where
  "overlaps obj target =
     (let targetScale = scaleOr1 target;
          hitRadius = 1.0 * targetScale;
          dx = jabs (jsub (px obj) (px target));
          dz = jabs (jsub (pz obj) (pz target))
      in jlt dx (Num hitRadius) \<and> jlt dz (Num hitRadius))"

text \<open>The loop over \<open>targets\<close>, left by \<open>break\<close> at the first hit.\<close>

fun bulletTargets :: "Env \<Rightarrow> nat \<Rightarrow> nat list \<Rightarrow> Loop \<Rightarrow> bool \<times> Loop" where
  "bulletTargets E i [] s = (True, s)"
| "bulletTargets E i (t # ts) s =
     (if \<not> active (currentObjects s ! t) then bulletTargets E i ts s
      else if overlaps (currentObjects s ! i) (currentObjects s ! t)
        then (False, hitTarget E i t s)
      else bulletTargets E i ts s)"

definition bulletCollision :: "Env \<Rightarrow> nat list \<Rightarrow> nat \<Rightarrow> Loop \<Rightarrow> bool \<times> Loop" where
  "bulletCollision E targets i s =
     (let (keep, s1) = bulletTargets E i targets s
      in if jlt (pz (currentObjects s1 ! i)) (Num (- 30)) then (False, s1) else (keep, s1))"

text \<open>The vertical band \<open>(objBottom, objTop)\<close> of a damage source.\<close>

definition hitBand :: "GameObject \<Rightarrow> real \<times> real" where
  "hitBand obj =
     (let sc = scaleOr1 obj
      in if type obj = BARREL then
           (if variant obj = Some SAUCER then (0.5 * sc, 1.5 * sc)
            else if variant obj = Some ARMORED then (0.0, 1.5 * sc)
            else (0, 1.2 * sc))
         else if type obj = MISSILE then (0.5, 1.5)
         else if type obj = ALIEN then (1.0, 2.0)
         else (0, 1.0))"

definition isDamageSource :: "GameObject \<Rightarrow> bool" where
  "isDamageSource obj = (type obj = BARREL \<or> type obj = ALIEN \<or> type obj = MISSILE)"

definition collectItem :: "GameObject \<Rightarrow> Loop \<Rightarrow> Loop" where
  "collectItem obj s =
     (let s1 = (if type obj = GEM then
                  emit PlayGemCollect (s\<lparr>store := collectGem (pointsOr50 obj) (store s)\<rparr>)
                else s)
      in case targetIndex obj of
           Some ix \<Rightarrow>
             if type obj = LETTER then
               emit PlayLetterCollect (s1\<lparr>store := collectLetter ix (store s1)\<rparr>)
             else s1
         | None \<Rightarrow> s1)"

definition playerCollision :: "Env \<Rightarrow> nat \<Rightarrow> Loop \<Rightarrow> bool \<times> Loop" where
  "playerCollision E i s =
     (let obj = currentObjects s ! i;
          zThreshold = 2.0;
          inZZone = (jgt (pz obj) (Num (playerZ E - zThreshold))
                     \<and> jlt (pz obj) (Num (playerZ E + zThreshold)))
      in if type obj = SHOP_PORTAL then
           (if jlt (jabs (jsub (pz obj) (Num (playerZ E)))) (Num 2) then
              (False,
               (modify i (\<lambda>ob. ob\<lparr>active := False\<rparr>) (s\<lparr>store := openShop (store s)\<rparr>))
                 \<lparr>hasChanges := True\<rparr>)
            else (True, s))
         else if inZZone then
           (let dx = jabs (jsub (px obj) (Num (playerX E)))
            in if type obj = ENEMY_BULLET then
                 (let dy = jabs (jsub (py obj) (Num (playerY E + 0.6)))
                  in if jlt dx (Num 0.5) \<and> jlt dy (Num 0.6) then
                       (True,
                        emit PlayExplosion
                          ((modify i (\<lambda>ob. ob\<lparr>active := False\<rparr>) (emit PlayerHit s))
                             \<lparr>hasChanges := True\<rparr>))
                     else (True, s))
               else if jlt dx (Num (0.9 * scaleOr1 obj)) then
                 (if isDamageSource obj then
                    (let playerBottom = playerY E;
                         playerTop = playerY E + 1.8;
                         (objBottom, objTop) = hitBand obj;
                         isHit = (playerBottom < objTop \<and> playerTop > objBottom)
                     in if isHit then
                          (True,
                           emit (ParticleBurst (position obj) ''#ff4400'')
                             (emit PlayExplosion
                                ((modify i (\<lambda>ob. ob\<lparr>active := False\<rparr>) (emit PlayerHit s))
                                   \<lparr>hasChanges := True\<rparr>)))
                        else (True, s))
                  else
                    (let dy = jabs (jsub (py obj) (Num (playerY E)))
                     in if jlt dy (Num 2.5) then
                          (True,
                           (modify i (\<lambda>ob. ob\<lparr>active := False\<rparr>)
                              (emit (ParticleBurst (position obj) (colorOrWhite obj))
                                 (collectItem obj s)))
                             \<lparr>hasChanges := True\<rparr>)
                        else (True, s)))
               else (True, s))
         else (True, s))"

text \<open>
  The \<open>if (obj.active)\<close> block: the magnet, then the bullet branch for a bullet, the
  player branch for anything else that the magnet left.
\<close>

definition collide :: "Env \<Rightarrow> nat list \<Rightarrow> nat \<Rightarrow> Loop \<Rightarrow> bool \<times> Loop" where
  "collide E targets i s =
     (let (keep, s1) = magnet E i s
      in if type (currentObjects s1 ! i) = BULLET \<and> keep then bulletCollision E targets i s1
         else if keep then playerCollision E i s1
         else (keep, s1))"

subsection \<open>The loop body and the loop\<close>

definition cull :: "nat \<Rightarrow> bool \<times> Loop \<Rightarrow> bool \<times> Loop" where
  "cull i ks =
     (let (keep, s) = ks; obj = currentObjects s ! i
      in if type obj \<noteq> BULLET \<and> jgt (pz obj) (Num REMOVE_DISTANCE)
         then (False, s\<lparr>hasChanges := True\<rparr>)
         else (keep, s))"

definition processObject :: "Env \<Rightarrow> nat list \<Rightarrow> nat \<Rightarrow> Loop \<Rightarrow> Loop" where
  "processObject E targets i s =
     (let s1 = modify i (move E) s;
          s2 = modify i (dodger E i) s1;
          s3 = saucer E i s2;
          s4 = alienAI E i s3;
          (keep, s5) = cull i (if active (currentObjects s4 ! i) then collide E targets i s4
                               else (True, s4))
      in if keep then s5\<lparr>keptObjects := keptObjects s5 @ [i]\<rparr> else s5)"

definition isTarget :: "GameObject \<Rightarrow> bool" where
  "isTarget obj = ((type obj = BARREL \<or> type obj = ALIEN \<or> type obj = MISSILE) \<and> active obj)"

definition targetsOf :: "GameObject list \<Rightarrow> nat list" where
  "targetsOf objs = filter (\<lambda>k. isTarget (objs ! k)) [0..<length objs]"

definition runLoop :: "Env \<Rightarrow> GameObject list \<Rightarrow> Loop \<Rightarrow> Loop" where
  "runLoop E objs s = fold (processObject E (targetsOf objs)) [0..<length objs] s"

subsection \<open>Spawning\<close>

definition isStatic :: "GameObject \<Rightarrow> bool" where
  "isStatic obj = (type obj \<noteq> MISSILE \<and> type obj \<noteq> BULLET \<and> type obj \<noteq> ENEMY_BULLET)"

text \<open>\<open>furthestZ\<close>: the least \<open>z\<close> of the static entities kept, or \<open>-60\<close> when there is none.\<close>

definition furthestZ :: "GameObject list \<Rightarrow> jsnum" where
  "furthestZ kept =
     (case map pz (filter isStatic kept) of
        [] \<Rightarrow> Num (- 60)
      | z # zs \<Rightarrow> fold jmin zs z)"

definition minGap :: "GameState \<Rightarrow> real" where
  "minGap P = 6 + (speed P * 0.2)"

definition spawnZ :: "GameState \<Rightarrow> GameObject list \<Rightarrow> jsnum" where
  "spawnZ P kept = jmax (jsub (furthestZ kept) (Num (minGap P))) (Num (- SPAWN_DISTANCE))"

definition getRandomLane :: "real \<Rightarrow> int \<Rightarrow> int" where
  "getRandomLane r lanes =
     (let mx = lanes div 2 in \<lfloor>r * real_of_int (mx * 2 + 1)\<rfloor> - mx)"

definition availableLanes :: "Random \<Rightarrow> int \<Rightarrow> int list" where
  "availableLanes R lanes = (let maxLane = lanes div 2 in shuffle R [- maxLane..maxLane])"

text \<open>\<open>lanes[k] * LANE_WIDTH\<close>; an index past the end reads \<open>undefined\<close>, and the product
  is \<open>NaN\<close>.\<close>

definition laneX :: "int list \<Rightarrow> nat \<Rightarrow> jsnum" where
  "laneX lanes k = (if k < length lanes then Num (real_of_int (lanes ! k) * LANE_WIDTH) else NaN)"

text \<open>\<open>xs[Math.floor(r * xs.length)]\<close>, undefined outside the array.\<close>

definition pick :: "'a list \<Rightarrow> real \<Rightarrow> 'a option" where
  "pick xs r =
     (let k = \<lfloor>r * real (length xs)\<rfloor>
      in if 0 \<le> k \<and> k < int (length xs) then Some (xs ! nat k) else None)"

definition spawnGem :: "Random \<Rightarrow> GameState \<Rightarrow> nat \<Rightarrow> jsnum \<Rightarrow> GameObject" where
  "spawnGem R P n z =
     (newObject (uuidv4 R n) GEM
        (Num (real_of_int (getRandomLane (laneRoll R) (laneCount P)) * LANE_WIDTH), Num 1.2, z))
       \<lparr>color := Some ''#00ffff'', points := Some 50\<rparr>"

definition spawnLetter :: "Random \<Rightarrow> GameState \<Rightarrow> nat \<Rightarrow> jsnum \<Rightarrow> int list \<Rightarrow> GameObject" where
  "spawnLetter R P n z availableIndices =
     (let chosenIndex = pick availableIndices (letterRoll R)
      in (newObject (uuidv4 R n) LETTER
            (Num (real_of_int (getRandomLane (laneRoll R) (laneCount P)) * LANE_WIDTH), Num 1.0, z))
           \<lparr>color := map_option (\<lambda>c. GEMINI_COLORS ! nat c) chosenIndex,
             value' := map_option (\<lambda>c. GEMINI_TARGET ! nat c) chosenIndex,
             targetIndex := chosenIndex\<rparr>)"

definition spawnAliens :: "Random \<Rightarrow> GameState \<Rightarrow> nat \<Rightarrow> jsnum \<Rightarrow> GameObject list" where
  "spawnAliens R P n z =
     (let lanes = availableLanes R (laneCount P);
          obstacleHealth = level P * 2;
          alienCount = (if pAlien R > 0.7 then min 2 (length lanes) else 1)
      in map (\<lambda>k. (newObject (uuidv4 R (n + k)) ALIEN (laneX lanes k, Num 1.5, z))
                     \<lparr>color := Some ''#00ff00'', hasFired := Some False,
                       health := Some obstacleHealth, maxHealth := Some obstacleHealth\<rparr>)
           [0..<alienCount])"

text \<open>One ground enemy in lane \<open>lanes[i]\<close>, and with probability 0.3 a gem above it.\<close>

definition spawnBarrel :: "Random \<Rightarrow> GameState \<Rightarrow> nat \<Rightarrow> jsnum \<Rightarrow> int list \<Rightarrow> nat \<Rightarrow> GameObject list" where
  "spawnBarrel R P n z lanes i =
     (let obstacleHealth = level P * 2;
          archetype = archetypeRoll R i;
          canBeAdvanced = (level P \<ge> 3);
          (var, height, sc, hp, bonus) =
            (if canBeAdvanced \<and> archetype > 0.8 then
               (ARMORED, 1.2, 1.8, level P * 6, - 1.5)
             else if canBeAdvanced \<and> archetype > 0.6 then
               (SAUCER, 1.0, 0.8, max 2 (level P), 5.0)
             else (GREEN_ALIEN, 0.6, 1.0, obstacleHealth, 0));
          barrel = (newObject (uuidv4 R (n + 2 * i)) BARREL (laneX lanes i, Num height, z))
                     \<lparr>color := Some ''#ff0000'', health := Some hp, maxHealth := Some hp,
                       variant := Some var, scale := Some sc, speedBonus := Some bonus\<rparr>;
          gem = (newObject (uuidv4 R (n + 2 * i + 1)) GEM
                   (laneX lanes i, Num (height + 1.5 * sc), z))
                  \<lparr>color := Some ''#ffd700'', points := Some 100\<rparr>
      in if bonusGemRoll R i < 0.3 then [barrel, gem] else [barrel])"

definition spawnBarrels :: "Random \<Rightarrow> GameState \<Rightarrow> nat \<Rightarrow> jsnum \<Rightarrow> GameObject list" where
  "spawnBarrels R P n z =
     (let lanes = availableLanes R (laneCount P);
          countToSpawn = (if pGroup R > 0.90 then min 3 (length lanes)
                          else if pGroup R > 0.70 then min 2 (length lanes)
                          else 1)
      in concat (map (spawnBarrel R P n z lanes) [0..<countToSpawn]))"

text \<open>
  The spawning block.  It returns the entities pushed onto \<open>keptObjects\<close>, the new
  \<open>nextLetterDistance\<close> and whether it set \<open>hasChanges\<close>.  \<open>n\<close> numbers the identifiers it
  draws.
\<close>

definition spawning ::
  "Random \<Rightarrow> GameState \<Rightarrow> nat \<Rightarrow> real \<Rightarrow> real \<Rightarrow> GameObject list
     \<Rightarrow> GameObject list \<times> real \<times> bool" where
  "spawning R P n travelled nextLetter kept =
     (if jgt (furthestZ kept) (Num (- SPAWN_DISTANCE)) then
        (let z = spawnZ P kept
         in if jlt z (furthestZ kept) then
              (let isLetterDue = (travelled \<ge> nextLetter)
               in if isLetterDue then
                    (let availableIndices =
                           filter (\<lambda>ix. ix \<notin> set (collectedLetters P)) [0..5]
                     in if length availableIndices > 0 then
                          ([spawnLetter R P n z availableIndices],
                           nextLetter + getLetterInterval (level P), True)
                        else ([spawnGem R P n z], nextLetter, True))
                  else if skipRoll R > 0.1 then
                    (let isObstacle = (obstacleRoll R > 0.40)
                     in if isObstacle then
                          (let spawnAlien = (level P \<ge> 2 \<and> alienRoll R < 0.2)
                           in if spawnAlien then (spawnAliens R P n z, nextLetter, True)
                              else (spawnBarrels R P n z, nextLetter, True))
                        else ([spawnGem R P n z], nextLetter, True))
                  else ([], nextLetter, False))
            else ([], nextLetter, False))
      else ([], nextLetter, False))"

subsection \<open>One tick\<close>

text \<open>
  What the component keeps between ticks: the entity store \<open>objectsRef\<close>, the two distance
  refs, the live zustand store, and the log of what has been emitted.
\<close>

record World =
  objectsRef :: "GameObject list"
  distanceTraveled :: real
  nextLetterDistance :: real
  gameStore :: GameState
  emitted :: "Effect list"

definition mkEnv :: "Frame \<Rightarrow> GameState \<Rightarrow> Env" where
  "mkEnv F P =
     (let sd = min (delta F) 0.05;
          effectiveSpeed = (if isSlowMotion P then speed P * 0.5 else speed P);
          (x, y, z) = (case playerObj F of None \<Rightarrow> (0, 0, 0) | Some p \<Rightarrow> p)
      in \<lparr> safeDelta = sd, time = elapsedTime F, dist' = effectiveSpeed * sd,
           playerX = x, playerY = y, playerZ = z, props = P, rnd = random F \<rparr>)"

text \<open>
  The store is replaced by \<open>keptObjects\<close> only when \<open>hasChanges\<close> is set; otherwise
  \<open>objectsRef\<close> still holds the array the loop ran over, with the entities as the loop
  left them.
\<close>

definition tick :: "Frame \<Rightarrow> GameState \<Rightarrow> World \<Rightarrow> World" where
  "tick F P w =
     (if status P \<noteq> PLAYING then w
      else
        (let E = mkEnv F P;
             travelled = distanceTraveled w + dist' E;
             s0 = \<lparr> currentObjects = objectsRef w, keptObjects = [], newSpawns = [],
                    hasChanges = False, store = updateTime (safeDelta E) (gameStore w),
                    events = emitted w \<rparr>;
             s = runLoop E (objectsRef w) s0;
             kept = map (\<lambda>k. currentObjects s ! k) (keptObjects s) @ newSpawns s;
             (spawned, nextLetter, changed) =
               spawning (random F) P (length (objectsRef w)) travelled
                 (nextLetterDistance w) kept
         in \<lparr> objectsRef = (if hasChanges s \<or> changed then kept @ spawned
                             else currentObjects s),
              distanceTraveled = travelled,
              nextLetterDistance = nextLetter,
              gameStore = store s,
              emitted = events s \<rparr>))"

section \<open>Predicates used in the statements\<close>

text \<open>
  An entity that carries health is never both at health zero or below and active.
\<close>

definition deadIsInactive :: "GameObject \<Rightarrow> bool" where
  "deadIsInactive ob = (case health ob of None \<Rightarrow> True | Some h \<Rightarrow> h \<le> 0 \<longrightarrow> \<not> active ob)"

definition allDeadInactive :: "Loop \<Rightarrow> bool" where
  "allDeadInactive s =
     ((\<forall>ob \<in> set (currentObjects s). deadIsInactive ob)
      \<and> (\<forall>ob \<in> set (newSpawns s). deadIsInactive ob))"

text \<open>
  The kinds of entity that the loop drops from \<open>keptObjects\<close> in the iteration that
  deactivates them: bullets, shop portals, and gems (of the default scale, as every gem the
  program creates is).
\<close>

definition promptKind :: "GameObject \<Rightarrow> bool" where
  "promptKind ob =
     (type ob = BULLET \<or> type ob = SHOP_PORTAL \<or> (type ob = GEM \<and> scale ob = None))"

text \<open>The test of the bullet loop on a target \<open>t\<close>: the target is active and within the
  hit box of the bullet \<open>i\<close>.\<close>

definition bulletMatch :: "Loop \<Rightarrow> nat \<Rightarrow> nat \<Rightarrow> bool" where
  "bulletMatch s i t =
     (active (currentObjects s ! t) \<and> overlaps (currentObjects s ! i) (currentObjects s ! t))"

text \<open>The state of the loop body just before the collision block.\<close>

definition beforeCollision :: "Env \<Rightarrow> nat \<Rightarrow> Loop \<Rightarrow> Loop" where
  "beforeCollision E i s = alienAI E i (saucer E i (modify i (dodger E i) (modify i (move E) s)))"

text \<open>
  The invariant of the loop for the prompt kinds, with \<open>todo\<close> the indices still to be
  visited: an inactive entity of a prompt kind has been visited, was not kept, and set
  \<open>hasChanges\<close>; no target is of a prompt kind; every reactive spawn is active.
\<close>

definition removalInv :: "nat list \<Rightarrow> nat list \<Rightarrow> Loop \<Rightarrow> bool" where
  "removalInv targets todo s =
     ((\<forall>k < length (currentObjects s).
          promptKind (currentObjects s ! k) \<and> \<not> active (currentObjects s ! k) \<longrightarrow>
            k \<notin> set (keptObjects s) \<and> hasChanges s \<and> k \<notin> set todo)
    \<and> (\<forall>k \<in> set todo. k \<notin> set (keptObjects s))
    \<and> (\<forall>t \<in> set targets. \<not> promptKind (currentObjects s ! t))
    \<and> (\<forall>ob \<in> set (newSpawns s). active ob))"

section \<open>Scenes\<close>

text \<open>
  Concrete inputs, on which the theorems below are instantiated.  \<open>quietRandom\<close> is a
  random source under which the spawning block places nothing (its \<open>skipRoll\<close> is not
  above 0.1); under \<open>gemRandom\<close> it places a single gem.  The player stands at the origin.
\<close>

definition quietRandom :: Random where
  "quietRandom = \<lparr> strafeRoll = (\<lambda>_. 0), shotRoll = (\<lambda>_. 0), laneRoll = 0, letterRoll = 0,
     skipRoll = 0, obstacleRoll = 0, alienRoll = 0, shuffle = (\<lambda>xs. xs), pAlien = 0, pGroup = 0,
     archetypeRoll = (\<lambda>_. 0), bonusGemRoll = (\<lambda>_. 1), uuidv4 = (\<lambda>_. ''fresh'') \<rparr>"

definition gemRandom :: Random where
  "gemRandom = quietRandom\<lparr>skipRoll := 0.5\<rparr>"

definition calmFrame :: Frame where
  "calmFrame = \<lparr> delta = 0.016, elapsedTime = 1, playerObj = Some (0, 0, 0), random = quietRandom \<rparr>"

definition playing :: GameState where
  "playing = startGame initialState"

definition fiveLetters :: GameState where
  "fiveLetters = playing\<lparr>collectedLetters := [0, 1, 2, 3, 4]\<rparr>"

definition fiveLettersMax :: GameState where
  "fiveLettersMax = playing\<lparr>collectedLetters := [0, 1, 2, 3, 4], level := 50\<rparr>"

definition letter :: GameObject where
  "letter = (newObject ''letter'' LETTER (Num 0, Num 1, Num (- 0.5)))\<lparr>targetIndex := Some 3\<rparr>"

definition gem :: GameObject where
  "gem = (newObject ''gem'' GEM (Num 0, Num 1, Num (- 1)))\<lparr>points := Some 50\<rparr>"

definition hazard :: GameObject where
  "hazard = (newObject ''hazard'' BARREL (Num 0, Num 0.8, Num (- 5)))
              \<lparr>health := Some 1, variant := Some ARMORED\<rparr>"

definition tank :: GameObject where
  "tank = (newObject ''tank'' BARREL (Num 0.5, Num 0.8, Num (- 5.2)))
            \<lparr>health := Some 3, variant := Some ARMORED\<rparr>"

definition bullet :: GameObject where
  "bullet = newObject ''bullet'' BULLET (Num 0, Num 0, Num (- 5.1))"

definition saucerShip :: GameObject where
  "saucerShip = (newObject ''saucer'' BARREL (Num 0, Num 1.0, Num (- 1.328)))
                  \<lparr>color := Some ''#ff0000'', health := Some 3, maxHealth := Some 3,
                   variant := Some SAUCER, scale := Some 0.8, speedBonus := Some 5.0,
                   lastShotTime := Some 0\<rparr>"

definition world :: "GameObject list \<Rightarrow> World" where
  "world objs = \<lparr> objectsRef = objs, distanceTraveled = 0, nextLetterDistance = 150,
                  gameStore = playing, emitted = [] \<rparr>"

text \<open>A bullet between two ground enemies, both within its hit box; the loop has
  visited the two enemies.\<close>

definition crossfire :: Loop where
  "crossfire = \<lparr> currentObjects = [hazard, tank, bullet], keptObjects = [0, 1], newSpawns = [],
                  hasChanges = False, store = playing, events = [] \<rparr>"

text \<open>The same three entities at the start of a tick, the bullet first in the store and
  one movement short of the place of \<open>bullet\<close>.\<close>

definition shot :: GameObject where
  "shot = newObject ''bullet'' BULLET (Num 0, Num 0, Num (- 4.14))"

definition volley :: Loop where
  "volley = \<lparr> currentObjects = [shot, hazard, tank], keptObjects = [], newSpawns = [],
               hasChanges = False, store = playing, events = [] \<rparr>"

text \<open>A saucer, as the spawning block makes it, that its movement of the tick brings 1.2
  units ahead of the player, and that is due to fire, in slow motion.\<close>

definition ambush :: Loop where
  "ambush = \<lparr> currentObjects = [saucerShip], keptObjects = [], newSpawns = [],
               hasChanges = False, store = playing, events = [] \<rparr>"

definition slowEnv :: Env where
  "slowEnv = mkEnv (calmFrame\<lparr>elapsedTime := 3\<rparr>) (playing\<lparr>isSlowMotion := True\<rparr>)"

section \<open>Properties of the store\<close>

lemma playing_fields [simp]:
  "status playing = PLAYING" "speed playing = 6" "isSlowMotion playing = False"
  "level playing = 1" "laneCount playing = 3" "damagePerShot playing = 1"
  "collectedLetters playing = []" "score playing = 0" "gemsCollected playing = 0"
  by (simp_all add: playing_def startGame_def RUN_SPEED_BASE_def)

subsection \<open>Letter registration\<close>

text \<open>
  C5.  Registering a letter index that is already in the collected set changes nothing:
  the whole store, and so the collected letters, the level and the speed, is the same
  after the call as before it.
\<close>

theorem collectLetter_registered_noop:
  "index \<in> set (collectedLetters g) \<Longrightarrow> collectLetter index g = g"
  by (simp add: collectLetter_def)

theorem collectLetter_registered_noop_witness:
  "(2::int) \<in> set (collectedLetters (initialState\<lparr>collectedLetters := [4, 2]\<rparr>)) \<and>
   collectLetter 2 (initialState\<lparr>collectedLetters := [4, 2]\<rparr>)
     = initialState\<lparr>collectedLetters := [4, 2]\<rparr>"
  using collectLetter_registered_noop [of 2 "initialState\<lparr>collectedLetters := [4, 2]\<rparr>"]
  by simp

text \<open>
  C6.  When a letter that is not yet registered is collected while five are, the game makes
  exactly one transition: below the maximum level the level advances (level plus one, the
  collected letters reset, two more lanes up to nine, the speed raised by one and then by
  five percent); at the maximum level the status becomes VICTORY and 50000 points are
  added.  Registering any of the six letters of that completion again makes no second
  transition (level, status and score stay), and a registration that does not complete the
  word makes none.
\<close>

theorem collectLetter_completion:
  "(index \<notin> set (collectedLetters g) \<and> length (collectedLetters g) = 5 \<and> level g < MAX_LEVEL \<longrightarrow>
      collectLetter index g =
        g\<lparr>collectedLetters := [], speed := (speed g + speed g * 0.01) * 1.05,
          level := level g + 1, laneCount := min (laneCount g + 2) 9, status := PLAYING\<rparr>)
   \<and> (index \<notin> set (collectedLetters g) \<and> length (collectedLetters g) = 5
        \<and> \<not> level g < MAX_LEVEL \<longrightarrow>
      collectLetter index g =
        g\<lparr>collectedLetters := collectedLetters g @ [index], speed := speed g + speed g * 0.01,
          status := VICTORY, score := score g + 50000\<rparr>)
   \<and> (index \<notin> set (collectedLetters g) \<and> length (collectedLetters g) = 5 \<longrightarrow>
      (\<forall>j \<in> set (collectedLetters g @ [index]).
         level (collectLetter j (collectLetter index g)) = level (collectLetter index g)
       \<and> status (collectLetter j (collectLetter index g)) = status (collectLetter index g)
       \<and> score (collectLetter j (collectLetter index g)) = score (collectLetter index g)))
   \<and> (length (collectedLetters g) \<noteq> 5 \<longrightarrow>
        level (collectLetter index g) = level g
      \<and> status (collectLetter index g) = status g
      \<and> score (collectLetter index g) = score g)"
  by (auto simp: collectLetter_def advanceLevel_def GEMINI_TARGET_def Let_def)

theorem collectLetter_completion_witness:
  "collectLetter 5 fiveLetters =
     fiveLetters\<lparr>collectedLetters := [], speed := (speed fiveLetters + speed fiveLetters * 0.01) * 1.05,
       level := 2, laneCount := 5, status := PLAYING\<rparr>
   \<and> collectLetter 5 fiveLettersMax =
     fiveLettersMax\<lparr>collectedLetters := [0, 1, 2, 3, 4, 5],
       speed := speed fiveLettersMax + speed fiveLettersMax * 0.01,
       status := VICTORY, score := 50000\<rparr>
   \<and> level (collectLetter 5 (collectLetter 5 fiveLetters)) = level (collectLetter 5 fiveLetters)
   \<and> status (collectLetter 3 (collectLetter 5 fiveLettersMax)) = VICTORY
   \<and> level (collectLetter 1 playing) = 1"
proof -
  have a: "5 \<notin> set (collectedLetters fiveLetters) \<and> length (collectedLetters fiveLetters) = 5
           \<and> level fiveLetters < MAX_LEVEL"
    by (simp add: fiveLetters_def MAX_LEVEL_def)
  have b: "5 \<notin> set (collectedLetters fiveLettersMax) \<and> length (collectedLetters fiveLettersMax) = 5
           \<and> \<not> level fiveLettersMax < MAX_LEVEL"
    by (simp add: fiveLettersMax_def MAX_LEVEL_def)
  have c: "length (collectedLetters playing) \<noteq> 5"
    by simp
  note A = collectLetter_completion [of 5 fiveLetters]
  note B = collectLetter_completion [of 5 fiveLettersMax]
  note C = collectLetter_completion [of 1 playing]
  have 1: "collectLetter 5 fiveLetters =
     fiveLetters\<lparr>collectedLetters := [], speed := (speed fiveLetters + speed fiveLetters * 0.01) * 1.05,
       level := 2, laneCount := 5, status := PLAYING\<rparr>"
    using A a by (simp add: fiveLetters_def)
  have 2: "collectLetter 5 fiveLettersMax =
     fiveLettersMax\<lparr>collectedLetters := [0, 1, 2, 3, 4, 5],
       speed := speed fiveLettersMax + speed fiveLettersMax * 0.01,
       status := VICTORY, score := 50000\<rparr>"
    using B b by (simp add: fiveLettersMax_def)
  have "\<forall>j \<in> set (collectedLetters fiveLetters @ [5]).
          level (collectLetter j (collectLetter 5 fiveLetters)) = level (collectLetter 5 fiveLetters)
        \<and> status (collectLetter j (collectLetter 5 fiveLetters)) = status (collectLetter 5 fiveLetters)
        \<and> score (collectLetter j (collectLetter 5 fiveLetters)) = score (collectLetter 5 fiveLetters)"
    using A a by blast
  then have 3: "level (collectLetter 5 (collectLetter 5 fiveLetters)) = level (collectLetter 5 fiveLetters)"
    by simp
  have "\<forall>j \<in> set (collectedLetters fiveLettersMax @ [5]).
          level (collectLetter j (collectLetter 5 fiveLettersMax)) = level (collectLetter 5 fiveLettersMax)
        \<and> status (collectLetter j (collectLetter 5 fiveLettersMax)) = status (collectLetter 5 fiveLettersMax)
        \<and> score (collectLetter j (collectLetter 5 fiveLettersMax)) = score (collectLetter 5 fiveLettersMax)"
    using B b by blast
  moreover have "3 \<in> set (collectedLetters fiveLettersMax @ [5])"
    by (simp add: fiveLettersMax_def)
  ultimately have "status (collectLetter 3 (collectLetter 5 fiveLettersMax))
                     = status (collectLetter 5 fiveLettersMax)"
    by blast
  then have 4: "status (collectLetter 3 (collectLetter 5 fiveLettersMax)) = VICTORY"
    using 2 by simp
  have 5: "level (collectLetter 1 playing) = 1"
    using C c by simp
  show ?thesis using 1 2 3 4 5 by blast
qed

subsection \<open>The shop\<close>

text \<open>
  C8.  \<open>buyItem\<close> is all or nothing.  With a score of at least the cost it returns true,
  takes exactly the cost off the score and applies the upgrade bought: one more damage per
  shot, the spread shot, one more heart slot and life, or one life up to the maximum.
  With a smaller score it returns false and leaves the whole store as it was.
\<close>

theorem buyItem_all_or_nothing:
  "(score g \<ge> cost \<longrightarrow>
      fst (buyItem ty cost g)
    \<and> score (snd (buyItem ty cost g)) = score g - cost
    \<and> (ty = HEAVY_AMMO \<longrightarrow>
         snd (buyItem ty cost g) = g\<lparr>score := score g - cost, damagePerShot := damagePerShot g + 1\<rparr>)
    \<and> (ty = SPREAD_SHOT \<longrightarrow>
         snd (buyItem ty cost g) = g\<lparr>score := score g - cost, hasSpreadShot := True\<rparr>)
    \<and> (ty = MAX_LIFE \<longrightarrow>
         snd (buyItem ty cost g) =
           g\<lparr>score := score g - cost, maxLives := maxLives g + 1, lives := lives g + 1\<rparr>)
    \<and> (ty = HEAL \<longrightarrow>
         snd (buyItem ty cost g) =
           g\<lparr>score := score g - cost, lives := min (lives g + 1) (maxLives g)\<rparr>))
   \<and> (score g < cost \<longrightarrow> buyItem ty cost g = (False, g))"
  by (cases ty) (simp_all add: buyItem_def Let_def)

theorem buyItem_all_or_nothing_witness:
  "buyItem HEAVY_AMMO 6000 (initialState\<lparr>score := 7000\<rparr>)
     = (True, initialState\<lparr>score := 1000, damagePerShot := 2\<rparr>)
   \<and> buyItem HEAL 1500 (initialState\<lparr>score := 1000\<rparr>) = (False, initialState\<lparr>score := 1000\<rparr>)"
  using buyItem_all_or_nothing [of 6000 "initialState\<lparr>score := 7000\<rparr>" HEAVY_AMMO]
        buyItem_all_or_nothing [of 1500 "initialState\<lparr>score := 1000\<rparr>" HEAL]
  by (simp add: initialState_def prod_eq_iff)

subsection \<open>Damage to the player\<close>

lemma takeDamage_iterated: "0 \<le> lives g \<Longrightarrow> 0 \<le> lives ((takeDamage ^^ n) g)"
  by (induction n) (auto simp: takeDamage_def)

text \<open>
  C10.  \<open>takeDamage\<close> changes nothing while immortality is active.  Otherwise it takes one
  life and leaves the status alone when more than one life is left, and with exactly one
  life left it sets the lives to 0, the status to GAME_OVER and the speed to 0.  Starting
  from a number of lives that is not negative, no sequence of calls makes it negative.
\<close>

theorem takeDamage_cases:
  "(isImmortalityActive g \<longrightarrow> takeDamage g = g)
   \<and> (\<not> isImmortalityActive g \<and> lives g > 1 \<longrightarrow> takeDamage g = g\<lparr>lives := lives g - 1\<rparr>)
   \<and> (\<not> isImmortalityActive g \<and> lives g = 1 \<longrightarrow>
        takeDamage g = g\<lparr>lives := 0, status := GAME_OVER, speed := 0\<rparr>)
   \<and> (0 \<le> lives g \<longrightarrow> (\<forall>n. 0 \<le> lives ((takeDamage ^^ n) g)))"
  by (simp add: takeDamage_def takeDamage_iterated)

theorem takeDamage_cases_witness:
  "takeDamage (initialState\<lparr>isImmortalityActive := True\<rparr>) = initialState\<lparr>isImmortalityActive := True\<rparr>
   \<and> takeDamage initialState = initialState\<lparr>lives := 2\<rparr>
   \<and> takeDamage (initialState\<lparr>lives := 1\<rparr>) = initialState\<lparr>lives := 0, status := GAME_OVER, speed := 0\<rparr>
   \<and> 0 \<le> lives ((takeDamage ^^ 5) initialState)"
  using takeDamage_cases [of "initialState\<lparr>isImmortalityActive := True\<rparr>"]
        takeDamage_cases [of initialState]
        takeDamage_cases [of "initialState\<lparr>lives := 1\<rparr>"]
  by (simp add: initialState_def)

section \<open>Properties of the tick\<close>

subsection \<open>Reading the loop state\<close>

lemma modify_simps [simp]:
  "keptObjects (modify i f s) = keptObjects s"
  "newSpawns (modify i f s) = newSpawns s"
  "hasChanges (modify i f s) = hasChanges s"
  "store (modify i f s) = store s"
  "events (modify i f s) = events s"
  "length (currentObjects (modify i f s)) = length (currentObjects s)"
  by (simp_all add: modify_def)

lemma emit_simps [simp]:
  "currentObjects (emit e s) = currentObjects s"
  "keptObjects (emit e s) = keptObjects s"
  "newSpawns (emit e s) = newSpawns s"
  "hasChanges (emit e s) = hasChanges s"
  "store (emit e s) = store s"
  by (simp_all add: emit_def)

text \<open>An index past the end of the array is never written: the loop visits the indices
  of the array only, and \<open>modify\<close> leaves the array alone there.\<close>

lemma modify_nth:
  "currentObjects (modify i f s) ! k =
     (if k = i \<and> i < length (currentObjects s) then f (currentObjects s ! i)
      else currentObjects s ! k)"
  by (cases "i < length (currentObjects s)")
     (auto simp: modify_def nth_list_update not_less list_update_beyond)

lemma modify_currentObjects_upd [simp]:
  "currentObjects (modify i f (s\<lparr>hasChanges := b\<rparr>)) = currentObjects (modify i f s)"
  "currentObjects (modify i f (s\<lparr>store := g\<rparr>)) = currentObjects (modify i f s)"
  by (simp_all add: modify_def)

lemma in_set_updateD: "x \<in> set (xs[k := v]) \<Longrightarrow> x = v \<or> x \<in> set xs"
  using set_update_subset_insert [of xs k v] by auto

lemma find_in_set: "List.find Q xs = Some x \<Longrightarrow> x \<in> set xs"
  by (induction xs) (auto split: if_splits)

lemma calmEnv:
  "mkEnv calmFrame playing =
     \<lparr> safeDelta = 0.016, time = 1, dist' = 0.096, playerX = 0, playerY = 0, playerZ = 0,
       props = playing, rnd = quietRandom \<rparr>"
  by (simp add: mkEnv_def calmFrame_def Let_def)

lemma slowEnv_eq:
  "slowEnv = \<lparr> safeDelta = 0.016, time = 3, dist' = 0.048, playerX = 0, playerY = 0, playerZ = 0,
       props = playing\<lparr>isSlowMotion := True\<rparr>, rnd = quietRandom \<rparr>"
  by (simp add: slowEnv_def mkEnv_def calmFrame_def Let_def)

lemmas object_defs = hazard_def tank_def bullet_def gem_def letter_def saucerShip_def newObject_def

subsection \<open>A bullet hit\<close>

lemma hitTarget_store:
  "store (hitTarget E i t s) =
     (if (case health (currentObjects s ! t) of Some h0 \<Rightarrow> h0 - damagePerShot (props E)
                                               | None \<Rightarrow> 0) \<le> 0
      then collectGem 50 (store s) else store s)"
  by (simp add: hitTarget_def Let_def modify_nth)

lemma hitTarget_target:
  "t < length (currentObjects s) \<Longrightarrow> t \<noteq> i \<Longrightarrow>
   currentObjects (hitTarget E i t s) ! t =
     (let h = (case health (currentObjects s ! t) of Some h0 \<Rightarrow> h0 - damagePerShot (props E)
                                                 | None \<Rightarrow> 0)
      in (currentObjects s ! t)
           \<lparr>health := Some h,
            active := (if h \<le> 0 then False else active (currentObjects s ! t))\<rparr>)"
  by (simp add: hitTarget_def Let_def modify_nth)

lemma hitTarget_frame [simp]:
  "length (currentObjects (hitTarget E i t s)) = length (currentObjects s)"
  "keptObjects (hitTarget E i t s) = keptObjects s"
  "newSpawns (hitTarget E i t s) = newSpawns s"
  "hasChanges (hitTarget E i t s)"
  by (simp_all add: hitTarget_def Let_def)

lemma hitTarget_health_others:
  "k \<noteq> t \<Longrightarrow> health (currentObjects (hitTarget E i t s) ! k) = health (currentObjects s ! k)"
  by (simp add: hitTarget_def Let_def modify_nth)

lemma hitTarget_bullet_inactive:
  "i < length (currentObjects s) \<Longrightarrow> \<not> active (currentObjects (hitTarget E i t s) ! i)"
  by (simp add: hitTarget_def Let_def modify_nth)

lemma crossfire_hit:
  "currentObjects (hitTarget (mkEnv calmFrame playing) 2 0 crossfire)
     = [hazard\<lparr>health := Some 0, active := False\<rparr>, tank, bullet\<lparr>active := False\<rparr>]"
  "store (hitTarget (mkEnv calmFrame playing) 2 0 crossfire) = collectGem 50 playing"
  by (simp_all add: hitTarget_def Let_def crossfire_def modify_def emit_def calmEnv hazard_def
        newObject_def)

text \<open>
  C9.  A bullet hit that destroys its target (the target was active and is inactive after
  the hit) pays the bonus through \<open>collectGem 50\<close>: the score grows by 50 and
  \<open>gemsCollected\<close> by one, as for a gem picked up.  A hit that leaves the target active
  leaves the store alone.
\<close>

theorem destroyed_target_pays_gem:
  assumes "t < length (currentObjects s)" "t \<noteq> i" "active (currentObjects s ! t)"
  shows "(\<not> active (currentObjects (hitTarget E i t s) ! t) \<longrightarrow>
            store (hitTarget E i t s) = collectGem 50 (store s)
          \<and> gemsCollected (store (hitTarget E i t s)) = gemsCollected (store s) + 1
          \<and> score (store (hitTarget E i t s)) = score (store s) + 50)
       \<and> (active (currentObjects (hitTarget E i t s) ! t) \<longrightarrow>
            store (hitTarget E i t s) = store s)"
  using assms by (simp add: hitTarget_store hitTarget_target Let_def collectGem_def)

theorem destroyed_target_pays_gem_witness:
  "active (currentObjects crossfire ! 0)
   \<and> \<not> active (currentObjects (hitTarget (mkEnv calmFrame playing) 2 0 crossfire) ! 0)
   \<and> gemsCollected (store (hitTarget (mkEnv calmFrame playing) 2 0 crossfire)) = 1
   \<and> score (store (hitTarget (mkEnv calmFrame playing) 2 0 crossfire)) = 50"
proof -
  have a: "0 < length (currentObjects crossfire)" "(0::nat) \<noteq> 2"
    "active (currentObjects crossfire ! 0)"
    by (simp_all add: crossfire_def hazard_def newObject_def)
  have b: "\<not> active (currentObjects (hitTarget (mkEnv calmFrame playing) 2 0 crossfire) ! 0)"
    by (simp add: crossfire_hit)
  from destroyed_target_pays_gem [OF a, of "mkEnv calmFrame playing"] b
  have "gemsCollected (store (hitTarget (mkEnv calmFrame playing) 2 0 crossfire))
          = gemsCollected (store crossfire) + 1"
    and "score (store (hitTarget (mkEnv calmFrame playing) 2 0 crossfire))
          = score (store crossfire) + 50"
    by blast+
  with a(3) b show ?thesis by (simp add: crossfire_def)
qed

subsection \<open>What each step of the loop body leaves alone\<close>

lemma bulletTargets_find:
  "bulletTargets E i targets s =
     (case List.find (\<lambda>t. active (currentObjects s ! t)
                          \<and> overlaps (currentObjects s ! i) (currentObjects s ! t)) targets of
        None \<Rightarrow> (True, s)
      | Some t \<Rightarrow> (False, hitTarget E i t s))"
  by (induction targets) auto

lemma move_fields [simp]:
  "type (move E ob) = type ob" "scale (move E ob) = scale ob" "active (move E ob) = active ob"
  "health (move E ob) = health ob"
  by (simp_all add: move_def Let_def split: option.splits prod.splits)

lemma dodger_fields [simp]:
  "type (dodger E i ob) = type ob" "scale (dodger E i ob) = scale ob"
  "active (dodger E i ob) = active ob" "health (dodger E i ob) = health ob"
  by (simp_all add: dodger_def Let_def)

lemma saucer_frame [simp]:
  "length (currentObjects (saucer E i s)) = length (currentObjects s)"
  "keptObjects (saucer E i s) = keptObjects s"
  by (simp_all add: saucer_def Let_def)

lemma alienAI_frame [simp]:
  "length (currentObjects (alienAI E i s)) = length (currentObjects s)"
  "keptObjects (alienAI E i s) = keptObjects s"
  by (simp_all add: alienAI_def Let_def)

lemma magnet_frame [simp]:
  "length (currentObjects (snd (magnet E i s))) = length (currentObjects s)"
  "keptObjects (snd (magnet E i s)) = keptObjects s"
  "newSpawns (snd (magnet E i s)) = newSpawns s"
  by (simp_all add: magnet_def Let_def)

lemma bulletTargets_frame [simp]:
  "length (currentObjects (snd (bulletTargets E i targets s))) = length (currentObjects s)"
  "keptObjects (snd (bulletTargets E i targets s)) = keptObjects s"
  "newSpawns (snd (bulletTargets E i targets s)) = newSpawns s"
  by (simp_all add: bulletTargets_find split: option.splits)

lemma bulletCollision_frame [simp]:
  "length (currentObjects (snd (bulletCollision E targets i s))) = length (currentObjects s)"
  "keptObjects (snd (bulletCollision E targets i s)) = keptObjects s"
  "newSpawns (snd (bulletCollision E targets i s)) = newSpawns s"
  by (simp_all add: bulletCollision_def Let_def case_prod_beta)

lemma collectItem_frame [simp]:
  "currentObjects (collectItem ob s) = currentObjects s"
  "keptObjects (collectItem ob s) = keptObjects s"
  "newSpawns (collectItem ob s) = newSpawns s"
  "hasChanges (collectItem ob s) = hasChanges s"
  by (simp_all add: collectItem_def Let_def split: option.splits)

lemma playerCollision_frame [simp]:
  "length (currentObjects (snd (playerCollision E i s))) = length (currentObjects s)"
  "keptObjects (snd (playerCollision E i s)) = keptObjects s"
  "newSpawns (snd (playerCollision E i s)) = newSpawns s"
  by (simp_all add: playerCollision_def Let_def case_prod_beta)

lemma collide_frame [simp]:
  "length (currentObjects (snd (collide E targets i s))) = length (currentObjects s)"
  "keptObjects (snd (collide E targets i s)) = keptObjects s"
  "newSpawns (snd (collide E targets i s)) = newSpawns s"
  by (simp_all add: collide_def Let_def case_prod_beta)

lemma cull_frame [simp]:
  "currentObjects (snd (cull i ks)) = currentObjects (snd ks)"
  "keptObjects (snd (cull i ks)) = keptObjects (snd ks)"
  "newSpawns (snd (cull i ks)) = newSpawns (snd ks)"
  by (simp_all add: cull_def Let_def case_prod_beta)

lemma cull_fst: "fst (cull i ks) \<Longrightarrow> fst ks"
  by (simp add: cull_def Let_def case_prod_beta split: if_splits)

lemma saucer_nth:
  "type (currentObjects (saucer E i s) ! k) = type (currentObjects s ! k)"
  "scale (currentObjects (saucer E i s) ! k) = scale (currentObjects s ! k)"
  "active (currentObjects (saucer E i s) ! k) = active (currentObjects s ! k)"
  "health (currentObjects (saucer E i s) ! k) = health (currentObjects s ! k)"
  by (simp_all add: saucer_def Let_def modify_nth)

lemma alienAI_nth:
  "type (currentObjects (alienAI E i s) ! k) = type (currentObjects s ! k)"
  "scale (currentObjects (alienAI E i s) ! k) = scale (currentObjects s ! k)"
  "active (currentObjects (alienAI E i s) ! k) = active (currentObjects s ! k)"
  "health (currentObjects (alienAI E i s) ! k) = health (currentObjects s ! k)"
  by (simp_all add: alienAI_def Let_def modify_nth)

lemma magnet_nth:
  "type (currentObjects (snd (magnet E i s)) ! k) = type (currentObjects s ! k)"
  "scale (currentObjects (snd (magnet E i s)) ! k) = scale (currentObjects s ! k)"
  "health (currentObjects (snd (magnet E i s)) ! k) = health (currentObjects s ! k)"
  "k \<noteq> i \<Longrightarrow> currentObjects (snd (magnet E i s)) ! k = currentObjects s ! k"
  by (simp_all add: magnet_def Let_def modify_nth)

lemma hitTarget_nth:
  "type (currentObjects (hitTarget E i t s) ! k) = type (currentObjects s ! k)"
  "scale (currentObjects (hitTarget E i t s) ! k) = scale (currentObjects s ! k)"
  "k \<noteq> i \<Longrightarrow> k \<noteq> t \<Longrightarrow> currentObjects (hitTarget E i t s) ! k = currentObjects s ! k"
  by (simp_all add: hitTarget_def Let_def modify_nth)

lemma bulletTargets_nth:
  "type (currentObjects (snd (bulletTargets E i targets s)) ! k) = type (currentObjects s ! k)"
  "scale (currentObjects (snd (bulletTargets E i targets s)) ! k) = scale (currentObjects s ! k)"
  "k \<noteq> i \<Longrightarrow> k \<notin> set targets \<Longrightarrow>
     currentObjects (snd (bulletTargets E i targets s)) ! k = currentObjects s ! k"
proof -
  show "type (currentObjects (snd (bulletTargets E i targets s)) ! k) = type (currentObjects s ! k)"
    by (simp add: bulletTargets_find hitTarget_nth split: option.splits)
  show "scale (currentObjects (snd (bulletTargets E i targets s)) ! k) = scale (currentObjects s ! k)"
    by (simp add: bulletTargets_find hitTarget_nth split: option.splits)
  assume k: "k \<noteq> i" "k \<notin> set targets"
  show "currentObjects (snd (bulletTargets E i targets s)) ! k = currentObjects s ! k"
  proof (cases "List.find (\<lambda>t. active (currentObjects s ! t)
                          \<and> overlaps (currentObjects s ! i) (currentObjects s ! t)) targets")
    case None
    then show ?thesis by (simp add: bulletTargets_find)
  next
    case (Some t)
    then have "t \<in> set targets" by (rule find_in_set)
    with k have "k \<noteq> t" by auto
    with Some k(1) show ?thesis by (simp add: bulletTargets_find hitTarget_nth)
  qed
qed

lemma bulletCollision_nth:
  "type (currentObjects (snd (bulletCollision E targets i s)) ! k) = type (currentObjects s ! k)"
  "scale (currentObjects (snd (bulletCollision E targets i s)) ! k) = scale (currentObjects s ! k)"
  "k \<noteq> i \<Longrightarrow> k \<notin> set targets \<Longrightarrow>
     currentObjects (snd (bulletCollision E targets i s)) ! k = currentObjects s ! k"
  by (simp_all add: bulletCollision_def Let_def case_prod_beta bulletTargets_nth)

lemma playerCollision_nth:
  "type (currentObjects (snd (playerCollision E i s)) ! k) = type (currentObjects s ! k)"
  "scale (currentObjects (snd (playerCollision E i s)) ! k) = scale (currentObjects s ! k)"
  "health (currentObjects (snd (playerCollision E i s)) ! k) = health (currentObjects s ! k)"
  "k \<noteq> i \<Longrightarrow> currentObjects (snd (playerCollision E i s)) ! k = currentObjects s ! k"
  by (simp_all add: playerCollision_def Let_def case_prod_beta modify_nth)

lemma collide_nth:
  "type (currentObjects (snd (collide E targets i s)) ! k) = type (currentObjects s ! k)"
  "scale (currentObjects (snd (collide E targets i s)) ! k) = scale (currentObjects s ! k)"
  "k \<noteq> i \<Longrightarrow> k \<notin> set targets \<Longrightarrow>
     currentObjects (snd (collide E targets i s)) ! k = currentObjects s ! k"
  by (simp_all add: collide_def Let_def case_prod_beta magnet_nth bulletCollision_nth
        playerCollision_nth)

lemma magnet_keep: "fst (magnet E i s) \<Longrightarrow> snd (magnet E i s) = s"
  by (simp add: magnet_def Let_def split: if_splits)

lemma magnet_drop: "\<not> fst (magnet E i s) \<Longrightarrow> hasChanges (snd (magnet E i s))"
  by (simp add: magnet_def Let_def split: if_splits)

lemma magnet_only_gems: "type (currentObjects s ! i) \<noteq> GEM \<Longrightarrow> magnet E i s = (True, s)"
  by (simp add: magnet_def Let_def)

lemma hasChanges_mono:
  "hasChanges s \<Longrightarrow> hasChanges (saucer E i s)"
  "hasChanges s \<Longrightarrow> hasChanges (alienAI E i s)"
  "hasChanges s \<Longrightarrow> hasChanges (snd (magnet E i s))"
  "hasChanges s \<Longrightarrow> hasChanges (snd (bulletCollision E targets i s))"
  "hasChanges s \<Longrightarrow> hasChanges (snd (playerCollision E i s))"
  by (simp_all add: saucer_def alienAI_def magnet_def bulletCollision_def playerCollision_def
        bulletTargets_find Let_def case_prod_beta split: option.splits)

lemma collide_hasChanges: "hasChanges s \<Longrightarrow> hasChanges (snd (collide E targets i s))"
  by (simp add: collide_def Let_def case_prod_beta hasChanges_mono)

lemma cull_hasChanges: "hasChanges (snd ks) \<Longrightarrow> hasChanges (snd (cull i ks))"
  by (simp add: cull_def Let_def case_prod_beta)

lemma ai_newSpawns_active:
  "\<forall>ob \<in> set (newSpawns s). active ob \<Longrightarrow> \<forall>ob \<in> set (newSpawns (saucer E i s)). active ob"
  "\<forall>ob \<in> set (newSpawns s). active ob \<Longrightarrow> \<forall>ob \<in> set (newSpawns (alienAI E i s)). active ob"
  by (auto simp: saucer_def alienAI_def Let_def enemyBullet_def missile_def newObject_def)

subsection \<open>The loop body as a whole\<close>

lemma processObject_split:
  "processObject E targets i s =
     (let p = beforeCollision E i s;
          c = cull i (if active (currentObjects p ! i) then collide E targets i p else (True, p))
      in if fst c then (snd c)\<lparr>keptObjects := keptObjects (snd c) @ [i]\<rparr> else snd c)"
  by (simp add: processObject_def beforeCollision_def Let_def case_prod_beta)

lemma beforeCollision_nth:
  "type (currentObjects (beforeCollision E i s) ! k) = type (currentObjects s ! k)"
  "scale (currentObjects (beforeCollision E i s) ! k) = scale (currentObjects s ! k)"
  "active (currentObjects (beforeCollision E i s) ! k) = active (currentObjects s ! k)"
  "health (currentObjects (beforeCollision E i s) ! k) = health (currentObjects s ! k)"
  by (simp_all add: beforeCollision_def alienAI_nth saucer_nth modify_nth)

lemma beforeCollision_frame [simp]:
  "length (currentObjects (beforeCollision E i s)) = length (currentObjects s)"
  "keptObjects (beforeCollision E i s) = keptObjects s"
  by (simp_all add: beforeCollision_def)

lemma beforeCollision_hasChanges: "hasChanges s \<Longrightarrow> hasChanges (beforeCollision E i s)"
  by (simp add: beforeCollision_def hasChanges_mono)

lemma beforeCollision_newSpawns:
  "\<forall>ob \<in> set (newSpawns s). active ob \<Longrightarrow>
   \<forall>ob \<in> set (newSpawns (beforeCollision E i s)). active ob"
  unfolding beforeCollision_def
  by (intro ai_newSpawns_active) simp

lemma beforeCollision_plain:
  assumes "type (currentObjects s ! i) \<noteq> BARREL" "type (currentObjects s ! i) \<noteq> ALIEN"
  shows "beforeCollision E i s = modify i (move E) s"
proof -
  let ?m = "modify i (move E) s"
  have t: "type (currentObjects ?m ! i) = type (currentObjects s ! i)"
    by (simp add: modify_nth)
  have "modify i (dodger E i) ?m = ?m"
    using assms t by (simp add: modify_def dodger_def)
  moreover have "saucer E i ?m = ?m" using assms t by (simp add: saucer_def Let_def)
  moreover have "alienAI E i ?m = ?m" using assms t by (simp add: alienAI_def Let_def)
  ultimately show ?thesis by (simp add: beforeCollision_def)
qed

lemma processObject_length [simp]:
  "length (currentObjects (processObject E targets i s)) = length (currentObjects s)"
  by (simp add: processObject_def Let_def case_prod_beta)

lemma processObject_kept:
  "set (keptObjects (processObject E targets i s)) \<subseteq> insert i (set (keptObjects s))"
  by (auto simp: processObject_def Let_def case_prod_beta split: if_splits)

lemma processObject_hasChanges: "hasChanges s \<Longrightarrow> hasChanges (processObject E targets i s)"
  by (simp add: processObject_split Let_def beforeCollision_hasChanges collide_hasChanges
        cull_hasChanges)

lemma processObject_newSpawns:
  "\<forall>ob \<in> set (newSpawns s). active ob \<Longrightarrow>
   \<forall>ob \<in> set (newSpawns (processObject E targets i s)). active ob"
  using beforeCollision_newSpawns [of s E i]
  by (simp add: processObject_split Let_def)

lemma fold_processObject_length [simp]:
  "length (currentObjects (fold (processObject E targets) ks s)) = length (currentObjects s)"
  by (induction ks arbitrary: s) simp_all

lemma fold_processObject_kept:
  "set (keptObjects (fold (processObject E targets) ks s)) \<subseteq> set ks \<union> set (keptObjects s)"
proof (induction ks arbitrary: s)
  case Nil
  then show ?case by simp
next
  case (Cons k ks)
  from Cons.IH [of "processObject E targets k s"] processObject_kept [of E targets k s]
  show ?case by auto
qed

text \<open>The indices in \<open>keptObjects\<close> after the loop are indices of the array.\<close>

lemma runLoop_kept_valid:
  assumes "keptObjects s = []" "currentObjects s = objs"
  shows "\<forall>k \<in> set (keptObjects (runLoop E objs s)).
           k < length (currentObjects (runLoop E objs s))"
proof -
  have "set (keptObjects (runLoop E objs s)) \<subseteq> {0..<length objs}"
    using fold_processObject_kept [of E "targetsOf objs" "[0..<length objs]" s] assms
    by (simp add: runLoop_def)
  moreover have "length (currentObjects (runLoop E objs s)) = length objs"
    using assms by (simp add: runLoop_def)
  ultimately show ?thesis by auto
qed

text \<open>What \<open>tick\<close> puts into the store.\<close>

lemma tick_objects:
  assumes "status P = PLAYING"
  shows "objectsRef (tick F P w) =
     (let E = mkEnv F P;
          s = runLoop E (objectsRef w)
                \<lparr> currentObjects = objectsRef w, keptObjects = [], newSpawns = [],
                  hasChanges = False, store = updateTime (safeDelta E) (gameStore w),
                  events = emitted w \<rparr>;
          kept = map (\<lambda>k. currentObjects s ! k) (keptObjects s) @ newSpawns s;
          sp = spawning (random F) P (length (objectsRef w)) (distanceTraveled w + dist' E)
                 (nextLetterDistance w) kept
      in if hasChanges s \<or> snd (snd sp) then kept @ fst sp else currentObjects s)"
  using assms by (simp add: tick_def Let_def case_prod_beta)

subsection \<open>Bullets against targets\<close>

lemma crossfire_overlaps:
  "overlaps bullet hazard" "overlaps bullet tank"
  by (simp_all add: overlaps_def Let_def object_defs px_def pz_def scaleOr1_def)

text \<open>The loop body keeps the type of every entity, and the loop of a tick is the loop
  body at \<open>i\<close> between the iterations before and after it.\<close>

lemma processObject_type:
  "type (currentObjects (processObject E targets i s) ! k) = type (currentObjects s ! k)"
  by (simp add: processObject_split Let_def collide_nth beforeCollision_nth)

lemma fold_processObject_type:
  "type (currentObjects (fold (processObject E targets) ks s) ! k) = type (currentObjects s ! k)"
  by (induction ks arbitrary: s) (simp_all add: processObject_type)

lemma runLoop_at:
  assumes "i < length objs"
  shows "runLoop E objs s0
           = fold (processObject E (targetsOf objs)) [Suc i..<length objs]
               (processObject E (targetsOf objs) i
                  (fold (processObject E (targetsOf objs)) [0..<i] s0))"
proof -
  have "[0..<length objs] = [0..<i] @ [i..<length objs]"
    using assms upt_add_eq_append [of 0 i "length objs - i"] by simp
  then have "[0..<length objs] = [0..<i] @ i # [Suc i..<length objs]"
    using assms by (simp add: upt_conv_Cons)
  then show ?thesis by (simp add: runLoop_def)
qed

text \<open>The iteration of the loop body for an active bullet.\<close>

lemma processObject_bullet:
  assumes "i < length (currentObjects s)" "type (currentObjects s ! i) = BULLET"
    "active (currentObjects s ! i)"
  shows "processObject E targets i s =
     (case List.find (bulletMatch (modify i (move E) s) i) targets of
        None \<Rightarrow> (if jlt (pz (currentObjects (modify i (move E) s) ! i)) (Num (- 30))
                 then modify i (move E) s
                 else (modify i (move E) s)
                        \<lparr>keptObjects := keptObjects (modify i (move E) s) @ [i]\<rparr>)
      | Some t \<Rightarrow> hitTarget E i t (modify i (move E) s))"
proof -
  let ?p = "modify i (move E) s"
  have ty: "type (currentObjects ?p ! i) = BULLET" and ac: "active (currentObjects ?p ! i)"
    using assms by (simp_all add: modify_nth)
  have b: "beforeCollision E i s = ?p"
    using assms(2) by (simp add: beforeCollision_plain)
  have m: "magnet E i ?p = (True, ?p)" using ty by (simp add: magnet_only_gems)
  have c: "collide E targets i ?p = bulletCollision E targets i ?p"
    using ty m by (simp add: collide_def)
  have t2: "type (currentObjects (snd (bulletCollision E targets i ?p)) ! i) = BULLET"
    using ty by (simp add: bulletCollision_nth)
  have cu: "cull i (bulletCollision E targets i ?p) = bulletCollision E targets i ?p"
    using t2 by (simp add: cull_def Let_def case_prod_beta)
  have "processObject E targets i s =
          (if fst (bulletCollision E targets i ?p)
           then (snd (bulletCollision E targets i ?p))
                  \<lparr>keptObjects := keptObjects (snd (bulletCollision E targets i ?p)) @ [i]\<rparr>
           else snd (bulletCollision E targets i ?p))"
    using ac by (simp add: processObject_split b c cu Let_def)
  moreover have "(\<lambda>t. active (currentObjects ?p ! t)
                     \<and> overlaps (currentObjects ?p ! i) (currentObjects ?p ! t))
                 = bulletMatch ?p i"
    by (simp add: bulletMatch_def fun_eq_iff)
  ultimately show ?thesis
    by (simp add: bulletCollision_def bulletTargets_find Let_def case_prod_beta
          split: option.splits)
qed

text \<open>The target list is in the order of the store, so that the first match of the
  loop is the match of least index.\<close>

lemma find_first_sorted:
  assumes "sorted_wrt (<) xs" "List.find Q xs = Some t" "u \<in> set xs" "u < (t::nat)"
  shows "\<not> Q u"
  using assms
proof (induction xs)
  case Nil
  then show ?case by simp
next
  case (Cons x xs)
  show ?case
  proof (cases "Q x")
    case True
    with Cons.prems have "x = t" by simp
    with Cons.prems show ?thesis by auto
  next
    case False
    with Cons.prems have f: "List.find Q xs = Some t" by simp
    show ?thesis
    proof (cases "u = x")
      case True
      with False show ?thesis by simp
    next
      case False
      with Cons.prems have "u \<in> set xs" by simp
      with Cons.IH f Cons.prems show ?thesis by simp
    qed
  qed
qed

lemma targetsOf_sorted: "sorted_wrt (<) (targetsOf objs)"
  by (simp add: targetsOf_def sorted_wrt_filter)

lemma targetsOf_mem: "t \<in> set (targetsOf objs) \<longleftrightarrow> t < length objs \<and> isTarget (objs ! t)"
  by (auto simp: targetsOf_def)

lemma volley_moved:
  "modify 0 (move (mkEnv calmFrame playing)) volley
     = volley\<lparr>currentObjects := [bullet, hazard, tank]\<rparr>"
  by (simp add: volley_def modify_def move_def calmEnv shot_def bullet_def newObject_def
        px_def py_def pz_def BULLET_SPEED_def)

lemma volley_hit:
  "currentObjects (hitTarget (mkEnv calmFrame playing) 0 1
      (volley\<lparr>currentObjects := [bullet, hazard, tank]\<rparr>))
     = [bullet\<lparr>active := False\<rparr>, hazard\<lparr>health := Some 0, active := False\<rparr>, tank]"
  by (simp add: hitTarget_def Let_def volley_def modify_def emit_def calmEnv hazard_def
        newObject_def)

text \<open>
  C3.  The loop of a tick visits the indices of the store in order, with the targets of the
  store, in the order of the store, as target list.  When it reaches an active bullet \<open>i\<close>
  in the state \<open>s\<close>, the iteration of the loop body moves the bullet and then either finds
  no target that is active and within the hit box, and changes no entity further; or it
  is the hit of the bullet on the first such target \<open>t\<close> in the order of the store: \<open>t\<close>
  loses \<open>damagePerShot\<close> health (a target without health gets health 0), the health of
  no other entity changes, whatever other targets the hit box overlaps, and the bullet is
  inactive.
\<close>

theorem bullet_first_hit_wins:
  assumes "i < length objs"
    and "currentObjects s0 = objs"
    and "s = fold (processObject E (targetsOf objs)) [0..<i] s0"
    and "type (objs ! i) = BULLET"
    and "active (currentObjects s ! i)"
  shows "runLoop E objs s0
           = fold (processObject E (targetsOf objs)) [Suc i..<length objs]
               (processObject E (targetsOf objs) i s)
      \<and> (case List.find (bulletMatch (modify i (move E) s) i) (targetsOf objs) of
            None \<Rightarrow>
              currentObjects (processObject E (targetsOf objs) i s)
                = currentObjects (modify i (move E) s)
          | Some t \<Rightarrow>
              processObject E (targetsOf objs) i s = hitTarget E i t (modify i (move E) s)
            \<and> t < length objs \<and> isTarget (objs ! t)
            \<and> bulletMatch (modify i (move E) s) i t
            \<and> (\<forall>u < t. isTarget (objs ! u) \<longrightarrow> \<not> bulletMatch (modify i (move E) s) i u)
            \<and> health (currentObjects (processObject E (targetsOf objs) i s) ! t)
                = Some (case health (currentObjects s ! t) of
                          Some h \<Rightarrow> h - damagePerShot (props E) | None \<Rightarrow> 0)
            \<and> (\<forall>k. k \<noteq> t \<longrightarrow>
                  health (currentObjects (processObject E (targetsOf objs) i s) ! k)
                    = health (currentObjects s ! k))
            \<and> \<not> active (currentObjects (processObject E (targetsOf objs) i s) ! i))"
proof -
  let ?T = "targetsOf objs"
  let ?p = "modify i (move E) s"
  have len: "length (currentObjects s) = length objs"
    using assms(2,3) by simp
  have ty: "type (currentObjects s ! k) = type (objs ! k)" for k
    using assms(2,3) by (simp add: fold_processObject_type)
  have il: "i < length (currentObjects s)" using assms(1) len by simp
  have ib: "type (currentObjects s ! i) = BULLET" using assms(4) ty by simp
  have 1: "runLoop E objs s0
           = fold (processObject E ?T) [Suc i..<length objs] (processObject E ?T i s)"
    using runLoop_at [OF assms(1)] assms(3) by simp
  note po = processObject_bullet [OF il ib assms(5), of E ?T]
  have 2: "case List.find (bulletMatch ?p i) ?T of
            None \<Rightarrow> currentObjects (processObject E ?T i s) = currentObjects ?p
          | Some t \<Rightarrow>
              processObject E ?T i s = hitTarget E i t ?p
            \<and> t < length objs \<and> isTarget (objs ! t)
            \<and> bulletMatch ?p i t
            \<and> (\<forall>u < t. isTarget (objs ! u) \<longrightarrow> \<not> bulletMatch ?p i u)
            \<and> health (currentObjects (processObject E ?T i s) ! t)
                = Some (case health (currentObjects s ! t) of
                          Some h \<Rightarrow> h - damagePerShot (props E) | None \<Rightarrow> 0)
            \<and> (\<forall>k. k \<noteq> t \<longrightarrow>
                  health (currentObjects (processObject E ?T i s) ! k)
                    = health (currentObjects s ! k))
            \<and> \<not> active (currentObjects (processObject E ?T i s) ! i)"
  proof (cases "List.find (bulletMatch ?p i) ?T")
    case None
    with po show ?thesis by simp
  next
    case (Some t)
    with po have eq: "processObject E ?T i s = hitTarget E i t ?p" by simp
    from Some have tin: "t \<in> set ?T" by (rule find_in_set)
    then have tl: "t < length objs" and tt: "isTarget (objs ! t)"
      by (simp_all add: targetsOf_mem)
    from tt assms(4) have ti: "t \<noteq> i" by (auto simp: isTarget_def)
    from Some have bm: "bulletMatch ?p i t"
      by (auto simp: find_Some_iff)
    have first: "\<forall>u < t. isTarget (objs ! u) \<longrightarrow> \<not> bulletMatch ?p i u"
    proof (intro allI impI)
      fix u assume u: "u < t" "isTarget (objs ! u)"
      with tl have "u \<in> set ?T" by (simp add: targetsOf_mem)
      with find_first_sorted [OF targetsOf_sorted Some] u(1)
      show "\<not> bulletMatch ?p i u" by blast
    qed
    have tl': "t < length (currentObjects ?p)" using tl len by simp
    have h: "health (currentObjects (hitTarget E i t ?p) ! t)
                = Some (case health (currentObjects s ! t) of
                          Some h \<Rightarrow> h - damagePerShot (props E) | None \<Rightarrow> 0)"
      using hitTarget_target [OF tl' ti, of E] ti
      by (simp add: Let_def modify_nth)
    have others: "\<forall>k. k \<noteq> t \<longrightarrow>
                  health (currentObjects (hitTarget E i t ?p) ! k)
                    = health (currentObjects s ! k)"
      by (simp add: hitTarget_health_others modify_nth)
    have inact: "\<not> active (currentObjects (hitTarget E i t ?p) ! i)"
      using il by (simp add: hitTarget_bullet_inactive)
    from eq tl tt bm first h others inact Some show ?thesis by simp
  qed
  from 1 2 show ?thesis by blast
qed

theorem bullet_first_hit_wins_witness:
  "targetsOf [shot, hazard, tank] = [1, 2]
   \<and> bulletMatch (modify 0 (move (mkEnv calmFrame playing)) volley) 0 1
   \<and> bulletMatch (modify 0 (move (mkEnv calmFrame playing)) volley) 0 2
   \<and> map health (currentObjects
        (processObject (mkEnv calmFrame playing) (targetsOf [shot, hazard, tank]) 0 volley))
       = [None, Some 0, Some 3]
   \<and> map active (currentObjects
        (processObject (mkEnv calmFrame playing) (targetsOf [shot, hazard, tank]) 0 volley))
       = [False, False, True]"
proof -
  let ?E = "mkEnv calmFrame playing"
  have t: "targetsOf [shot, hazard, tank] = [1, 2]"
    by (simp add: targetsOf_def isTarget_def shot_def object_defs upt_rec)
  have pv: "currentObjects (modify 0 (move ?E) volley) = [bullet, hazard, tank]"
    by (simp add: volley_moved)
  have m: "bulletMatch (modify 0 (move ?E) volley) 0 1"
    "bulletMatch (modify 0 (move ?E) volley) 0 2"
    unfolding bulletMatch_def pv using crossfire_overlaps
    by (simp_all add: hazard_def tank_def newObject_def)
  then have f: "List.find (bulletMatch (modify 0 (move ?E) volley) 0) [1, 2] = Some 1"
    by simp
  have a: "0 < length [shot, hazard, tank]" "currentObjects volley = [shot, hazard, tank]"
    "volley = fold (processObject ?E (targetsOf [shot, hazard, tank])) [0..<0] volley"
    "type ([shot, hazard, tank] ! 0) = BULLET" "active (currentObjects volley ! 0)"
    by (simp_all add: volley_def shot_def newObject_def)
  from bullet_first_hit_wins [OF a] f
  have "processObject ?E (targetsOf [shot, hazard, tank]) 0 volley
          = hitTarget ?E 0 1 (modify 0 (move ?E) volley)"
    unfolding t by simp
  then have "currentObjects (processObject ?E (targetsOf [shot, hazard, tank]) 0 volley)
          = [bullet\<lparr>active := False\<rparr>, hazard\<lparr>health := Some 0, active := False\<rparr>, tank]"
    by (simp only: volley_moved volley_hit)
  with t m show ?thesis by (simp add: object_defs)
qed


subsection \<open>Health and the active flag\<close>

lemma allDeadInactive_modify:
  assumes "allDeadInactive s" "\<And>ob. deadIsInactive ob \<Longrightarrow> deadIsInactive (f ob)"
  shows "allDeadInactive (modify i f s)"
proof (cases "i < length (currentObjects s)")
  case True
  then have "currentObjects s ! i \<in> set (currentObjects s)" by simp
  with assms show ?thesis
    by (auto simp: allDeadInactive_def modify_def dest!: in_set_updateD)
next
  case False
  with assms(1) show ?thesis
    by (simp add: allDeadInactive_def modify_def not_less list_update_beyond)
qed

lemma allDeadInactive_upd [simp]:
  "allDeadInactive (s\<lparr>hasChanges := b\<rparr>) = allDeadInactive s"
  "allDeadInactive (s\<lparr>store := g\<rparr>) = allDeadInactive s"
  "allDeadInactive (s\<lparr>keptObjects := ks\<rparr>) = allDeadInactive s"
  "allDeadInactive (emit e s) = allDeadInactive s"
  by (simp_all add: allDeadInactive_def emit_def)

lemma deadIsInactive_fields:
  "health a = health b \<Longrightarrow> active a = active b \<Longrightarrow> deadIsInactive a = deadIsInactive b"
  by (simp add: deadIsInactive_def split: option.splits)

lemma deadIsInactive_moved [simp]:
  "deadIsInactive (move E ob) = deadIsInactive ob"
  "deadIsInactive (dodger E i ob) = deadIsInactive ob"
  "deadIsInactive (ob\<lparr>lastShotTime := a\<rparr>) = deadIsInactive ob"
  "deadIsInactive (ob\<lparr>hasFired := b\<rparr>) = deadIsInactive ob"
  by (rule deadIsInactive_fields; simp)+

lemma deadIsInactive_off [simp]: "deadIsInactive (ob\<lparr>active := False\<rparr>)"
  by (simp add: deadIsInactive_def split: option.splits)

lemma allDeadInactive_deactivate:
  "allDeadInactive s \<Longrightarrow> allDeadInactive (modify i (\<lambda>ob. ob\<lparr>active := False\<rparr>) s)"
  by (rule allDeadInactive_modify) simp_all

lemma allDeadInactive_saucer: "allDeadInactive s \<Longrightarrow> allDeadInactive (saucer E i s)"
proof -
  assume a: "allDeadInactive s"
  have b: "deadIsInactive (enemyBullet E i ob)" for ob
    by (simp add: deadIsInactive_def enemyBullet_def newObject_def)
  have "allDeadInactive (modify i (\<lambda>ob. ob\<lparr>lastShotTime := t\<rparr>) s)" for t
    using a by (rule allDeadInactive_modify) simp
  then show ?thesis using a b
    by (auto simp: saucer_def Let_def allDeadInactive_def emit_def)
qed

lemma allDeadInactive_alienAI:
  assumes "allDeadInactive s" "1 \<le> level (props E)"
  shows "allDeadInactive (alienAI E i s)"
proof -
  have b: "deadIsInactive (missile E i ob)" for ob
    using assms(2) by (simp add: deadIsInactive_def missile_def newObject_def)
  have "allDeadInactive (modify i (\<lambda>ob. ob\<lparr>hasFired := Some True\<rparr>) s)"
    using assms(1) by (rule allDeadInactive_modify) simp
  then show ?thesis using assms(1) b
    by (auto simp: alienAI_def Let_def allDeadInactive_def emit_def)
qed

lemma allDeadInactive_magnet: "allDeadInactive s \<Longrightarrow> allDeadInactive (snd (magnet E i s))"
  by (simp add: magnet_def Let_def allDeadInactive_deactivate)

text \<open>The hit itself: whatever the target's health was, after the hit the target is not
  both at health zero or below and active.\<close>

lemma hitTarget_dead_inactive:
  "t < length (currentObjects s) \<Longrightarrow> deadIsInactive (currentObjects (hitTarget E i t s) ! t)"
  by (simp add: hitTarget_def Let_def modify_nth deadIsInactive_def)

lemma allDeadInactive_hitTarget: "allDeadInactive s \<Longrightarrow> allDeadInactive (hitTarget E i t s)"
  apply (cases "t < length (currentObjects s)"; cases "i < length (currentObjects s)")
  apply (auto simp: hitTarget_def Let_def allDeadInactive_def emit_def modify_def nth_list_update
       not_less list_update_beyond deadIsInactive_def
       dest!: in_set_updateD split: option.splits if_splits)
  done

lemma allDeadInactive_bulletCollision:
  "allDeadInactive s \<Longrightarrow> allDeadInactive (snd (bulletCollision E targets i s))"
  by (simp add: bulletCollision_def Let_def case_prod_beta bulletTargets_find
        allDeadInactive_hitTarget split: option.splits)

lemma allDeadInactive_collectItem [simp]: "allDeadInactive (collectItem ob s) = allDeadInactive s"
  by (simp add: collectItem_def Let_def split: option.splits)

lemma allDeadInactive_playerCollision:
  "allDeadInactive s \<Longrightarrow> allDeadInactive (snd (playerCollision E i s))"
  by (simp add: playerCollision_def Let_def allDeadInactive_deactivate case_prod_beta)

lemma allDeadInactive_collide:
  "allDeadInactive s \<Longrightarrow> allDeadInactive (snd (collide E targets i s))"
  using allDeadInactive_magnet [of s E i]
  by (auto simp: collide_def Let_def case_prod_beta
        dest: allDeadInactive_bulletCollision allDeadInactive_playerCollision)

lemma allDeadInactive_cull: "allDeadInactive (snd ks) \<Longrightarrow> allDeadInactive (snd (cull i ks))"
  by (simp add: cull_def Let_def case_prod_beta)

lemma allDeadInactive_processObject:
  assumes "allDeadInactive s" "1 \<le> level (props E)"
  shows "allDeadInactive (processObject E targets i s)"
proof -
  let ?a = "modify i (move E) s"
  let ?b = "modify i (dodger E i) ?a"
  let ?p = "alienAI E i (saucer E i ?b)"
  have "allDeadInactive ?a" using assms(1) by (rule allDeadInactive_modify) simp
  then have "allDeadInactive ?b" by (rule allDeadInactive_modify) simp
  then have "allDeadInactive (saucer E i ?b)" by (rule allDeadInactive_saucer)
  then have p: "allDeadInactive ?p" using assms(2) by (rule allDeadInactive_alienAI)
  let ?c = "if active (currentObjects ?p ! i) then collide E targets i ?p else (True, ?p)"
  have "allDeadInactive (snd ?c)" using p allDeadInactive_collide [OF p] by simp
  then have "allDeadInactive (snd (cull i ?c))" by (rule allDeadInactive_cull)
  then show ?thesis
    by (simp add: processObject_def Let_def case_prod_beta)
qed

lemma allDeadInactive_fold:
  assumes "1 \<le> level (props E)"
  shows "allDeadInactive s \<Longrightarrow> allDeadInactive (fold (processObject E targets) ks s)"
  by (induction ks arbitrary: s) (simp_all add: allDeadInactive_processObject assms)

lemma deadIsInactive_spawnBarrel:
  assumes "1 \<le> level P" "ob \<in> set (spawnBarrel R P n z lanes i)"
  shows "deadIsInactive ob"
proof -
  have "health ob = None \<or> health ob = Some (level P * 6) \<or> health ob = Some (max 2 (level P))
        \<or> health ob = Some (level P * 2)"
    using assms(2)
    by (auto simp: spawnBarrel_def Let_def newObject_def split: if_splits)
  with assms(1) show ?thesis by (auto simp: deadIsInactive_def)
qed

lemma deadIsInactive_spawnAliens:
  assumes "1 \<le> level P" "ob \<in> set (spawnAliens R P n z)"
  shows "deadIsInactive ob"
  using assms by (auto simp: spawnAliens_def Let_def newObject_def deadIsInactive_def)

lemma deadIsInactive_pickups [simp]:
  "deadIsInactive (spawnGem R P n z)" "deadIsInactive (spawnLetter R P n z av)"
  by (simp_all add: spawnGem_def spawnLetter_def Let_def newObject_def deadIsInactive_def)

lemma deadIsInactive_spawned:
  assumes "1 \<le> level P" "ob \<in> set (fst (spawning R P n tr nl kept))"
  shows "deadIsInactive ob"
proof -
  note a = deadIsInactive_spawnAliens [OF assms(1)] and b = deadIsInactive_spawnBarrel [OF assms(1)]
  show ?thesis using assms(2)
    by (auto simp: spawning_def Let_def spawnBarrels_def split: if_splits intro: a b)
qed

lemma tick_keeps_dead_inactive:
  assumes "\<forall>ob \<in> set (objectsRef w). deadIsInactive ob" and "1 \<le> level P"
  shows "\<forall>ob \<in> set (objectsRef (tick F P w)). deadIsInactive ob"
proof (cases "status P = PLAYING")
  case False
  with assms(1) show ?thesis by (simp add: tick_def)
next
  case True
  let ?E = "mkEnv F P"
  let ?init = "\<lparr> currentObjects = objectsRef w, keptObjects = [], newSpawns = [],
               hasChanges = False, store = updateTime (safeDelta ?E) (gameStore w),
               events = emitted w \<rparr>"
  let ?s = "runLoop ?E (objectsRef w) ?init"
  let ?kept = "map (\<lambda>k. currentObjects ?s ! k) (keptObjects ?s) @ newSpawns ?s"
  let ?sp = "spawning (random F) P (length (objectsRef w)) (distanceTraveled w + dist' ?E)
               (nextLetterDistance w) ?kept"
  have lv: "1 \<le> level (props ?E)"
    using assms(2) by (simp add: mkEnv_def Let_def case_prod_beta)
  have "allDeadInactive ?init" using assms(1) by (simp add: allDeadInactive_def)
  then have h: "allDeadInactive ?s" unfolding runLoop_def by (rule allDeadInactive_fold [OF lv])
  have valid: "\<forall>k \<in> set (keptObjects ?s). k < length (currentObjects ?s)"
    by (rule runLoop_kept_valid) simp_all
  have k: "\<forall>ob \<in> set ?kept. deadIsInactive ob"
    using h valid by (auto simp: allDeadInactive_def)
  have sp: "\<forall>ob \<in> set (fst ?sp). deadIsInactive ob"
    using deadIsInactive_spawned [OF assms(2)] by blast
  have "objectsRef (tick F P w) =
          (if hasChanges ?s \<or> snd (snd ?sp) then ?kept @ fst ?sp else currentObjects ?s)"
    using tick_objects [OF True] by (simp add: Let_def)
  then show ?thesis using k sp h by (auto simp: allDeadInactive_def)
qed

text \<open>
  C2.  The bullet damage step leaves its target inactive whenever it leaves the target's
  health at zero or below: after \<open>hitTarget\<close> the target is never both at health zero or
  below and active.  Hence no tick produces such an entity: when no entity of the store
  has non-positive health while active, and the level is at least 1 (so that spawned
  enemies and missiles start with positive health), the same holds of the store after the
  tick.
\<close>

theorem dead_target_is_inactive:
  "(t < length (currentObjects s) \<longrightarrow> deadIsInactive (currentObjects (hitTarget E i t s) ! t))
   \<and> ((\<forall>ob \<in> set (objectsRef w). deadIsInactive ob) \<and> 1 \<le> level P \<longrightarrow>
        (\<forall>ob \<in> set (objectsRef (tick F P w)). deadIsInactive ob))"
  using hitTarget_dead_inactive [of t s E i] tick_keeps_dead_inactive [of w P F] by blast

theorem dead_target_is_inactive_witness:
  "health (currentObjects (hitTarget (mkEnv calmFrame playing) 2 0 crossfire) ! 0) = Some 0
   \<and> deadIsInactive (currentObjects (hitTarget (mkEnv calmFrame playing) 2 0 crossfire) ! 0)
   \<and> list_all deadIsInactive (objectsRef (world [hazard, bullet]))
   \<and> list_all deadIsInactive (objectsRef (tick calmFrame playing (world [hazard, bullet])))"
proof -
  note T = dead_target_is_inactive [where t = 0 and s = crossfire and i = 2
             and E = "mkEnv calmFrame playing" and w = "world [hazard, bullet]"
             and P = playing and F = calmFrame]
  have a: "0 < length (currentObjects crossfire)" by (simp add: crossfire_def)
  have b: "\<forall>ob \<in> set (objectsRef (world [hazard, bullet])). deadIsInactive ob"
    by (simp add: world_def deadIsInactive_def object_defs)
  have c: "1 \<le> level playing" by simp
  from T a have 1: "deadIsInactive (currentObjects (hitTarget (mkEnv calmFrame playing) 2 0 crossfire) ! 0)"
    by blast
  from T b c have 2: "\<forall>ob \<in> set (objectsRef (tick calmFrame playing (world [hazard, bullet]))).
                        deadIsInactive ob"
    by blast
  have 3: "health (currentObjects (hitTarget (mkEnv calmFrame playing) 2 0 crossfire) ! 0) = Some 0"
    by (simp add: crossfire_hit hazard_def newObject_def)
  from 1 2 3 b show ?thesis by (simp add: list_all_iff)
qed

subsection \<open>Removal of deactivated entities\<close>

lemma square_less:
  fixes a c :: real
  assumes "\<bar>a\<bar> < c"
  shows "a * a < c * c"
proof -
  have "\<bar>a\<bar> * \<bar>a\<bar> < c * c"
    using assms by (intro mult_strict_mono') auto
  then show ?thesis by (simp add: abs_mult_self_eq)
qed

lemma jabs_jsub_lt:
  "jlt (jabs (jsub a (Num b))) (Num c) \<Longrightarrow> \<exists>a0. a = Num a0 \<and> \<bar>a0 - b\<bar> < c"
  by (cases a) auto

text \<open>A gem that passes the tests of the pick-up branch (the z window, 0.9 sideways, 2.5
  upwards) is within the magnet radius, so the magnet has taken it already.\<close>

lemma gem_in_reach_is_magnetic:
  assumes z1: "jgt (pz ob) (Num (pz0 - 2))" and z2: "jlt (pz ob) (Num (pz0 + 2))"
    and x: "jlt (jabs (jsub (px ob) (Num px0))) (Num 0.9)"
    and y: "jlt (jabs (jsub (py ob) (Num py0))) (Num 2.5)"
  shows "jlt (jadd (jadd (jmul (jsub (Num px0) (px ob)) (jsub (Num px0) (px ob)))
                         (jmul (jsub (Num py0) (py ob)) (jsub (Num py0) (py ob))))
                   (jmul (jsub (Num pz0) (pz ob)) (jsub (Num pz0) (pz ob))))
             (Num 25)"
proof -
  from jabs_jsub_lt [OF x] obtain a where a: "px ob = Num a" "\<bar>a - px0\<bar> < 0.9" by blast
  from jabs_jsub_lt [OF y] obtain b where b: "py ob = Num b" "\<bar>b - py0\<bar> < 2.5" by blast
  from z1 z2 obtain c where c: "pz ob = Num c" "\<bar>c - pz0\<bar> < 2"
    by (cases "pz ob") (auto simp: jgt_def)
  have "(px0 - a) * (px0 - a) < 0.9 * 0.9"
    using a(2) by (intro square_less) (simp add: abs_minus_commute)
  moreover have "(py0 - b) * (py0 - b) < 2.5 * 2.5"
    using b(2) by (intro square_less) (simp add: abs_minus_commute)
  moreover have "(pz0 - c) * (pz0 - c) < 2 * 2"
    using c(2) by (intro square_less) (simp add: abs_minus_commute)
  ultimately have "(px0 - a) * (px0 - a) + (py0 - b) * (py0 - b) + (pz0 - c) * (pz0 - c) < 25"
    by simp
  then show ?thesis using a(1) b(1) c(1) by simp
qed

lemma bulletCollision_removed:
  assumes "active (currentObjects s ! i)"
    and "\<not> active (currentObjects (snd (bulletCollision E targets i s)) ! i)"
  shows "\<not> fst (bulletCollision E targets i s) \<and> hasChanges (snd (bulletCollision E targets i s))"
  using assms
  by (auto simp: bulletCollision_def Let_def case_prod_beta bulletTargets_find
        split: option.splits if_splits)

lemma portal_removed:
  assumes "type (currentObjects s ! i) = SHOP_PORTAL" "active (currentObjects s ! i)"
    and "\<not> active (currentObjects (snd (playerCollision E i s)) ! i)"
  shows "\<not> fst (playerCollision E i s) \<and> hasChanges (snd (playerCollision E i s))"
  using assms by (auto simp: playerCollision_def Let_def split: if_splits)

lemma gem_not_picked_by_contact:
  assumes "type (currentObjects s ! i) = GEM" "scale (currentObjects s ! i) = None"
    and "fst (magnet E i s)"
  shows "snd (playerCollision E i s) = s"
proof -
  let ?ob = "currentObjects s ! i"
  have far: "\<not> jlt (jadd (jadd (jmul (jsub (Num (playerX E)) (px ?ob)) (jsub (Num (playerX E)) (px ?ob)))
                         (jmul (jsub (Num (playerY E)) (py ?ob)) (jsub (Num (playerY E)) (py ?ob))))
                   (jmul (jsub (Num (playerZ E)) (pz ?ob)) (jsub (Num (playerZ E)) (pz ?ob))))
             (Num 25)"
    using assms(1,3) by (auto simp: magnet_def Let_def split: if_splits)
  have "\<not> (jgt (pz ?ob) (Num (playerZ E - 2)) \<and> jlt (pz ?ob) (Num (playerZ E + 2))
          \<and> jlt (jabs (jsub (px ?ob) (Num (playerX E)))) (Num 0.9)
          \<and> jlt (jabs (jsub (py ?ob) (Num (playerY E)))) (Num 2.5))"
    using far gem_in_reach_is_magnetic [of ?ob "playerZ E" "playerX E" "playerY E"] by blast
  then show ?thesis using assms(1,2)
    by (auto simp: playerCollision_def Let_def isDamageSource_def scaleOr1_def)
qed

text \<open>The collision block on an entity of a prompt kind: if it deactivates the entity,
  it clears \<open>keep\<close> and sets \<open>hasChanges\<close>.\<close>

lemma collide_prompt_removed:
  assumes "promptKind (currentObjects s ! i)" "active (currentObjects s ! i)"
    and "\<not> active (currentObjects (snd (collide E targets i s)) ! i)"
  shows "\<not> fst (collide E targets i s) \<and> hasChanges (snd (collide E targets i s))"
proof (cases "fst (magnet E i s)")
  case False
  then show ?thesis by (simp add: collide_def Let_def case_prod_beta magnet_drop)
next
  case True
  note keep = this
  then have m: "snd (magnet E i s) = s" by (rule magnet_keep)
  show ?thesis
  proof (cases "type (currentObjects s ! i) = BULLET")
    case True
    then have "collide E targets i s = bulletCollision E targets i s"
      using keep m by (simp add: collide_def Let_def case_prod_beta)
    with assms(2,3) bulletCollision_removed [of s i E targets] show ?thesis by simp
  next
    case False
    then have c: "collide E targets i s = playerCollision E i s"
      using keep m by (simp add: collide_def Let_def case_prod_beta)
    from False assms(1) consider "type (currentObjects s ! i) = SHOP_PORTAL"
      | "type (currentObjects s ! i) = GEM" "scale (currentObjects s ! i) = None"
      by (auto simp: promptKind_def)
    then show ?thesis
    proof cases
      case 1
      with assms(2,3) c portal_removed [of s i E] show ?thesis by simp
    next
      case 2
      from gem_not_picked_by_contact [OF 2 keep] c assms(2,3) show ?thesis by simp
    qed
  qed
qed

lemma promptKind_fields:
  "type a = type b \<Longrightarrow> scale a = scale b \<Longrightarrow> promptKind a = promptKind b"
  by (simp add: promptKind_def)

lemma processObject_promptKind:
  "promptKind (currentObjects (processObject E targets i s) ! k) = promptKind (currentObjects s ! k)"
  by (rule promptKind_fields)
     (simp_all add: processObject_split Let_def collide_nth beforeCollision_nth)

lemma processObject_prompt_others:
  assumes "promptKind (currentObjects s ! k)" "k \<noteq> i"
    and "\<forall>t \<in> set targets. \<not> promptKind (currentObjects s ! t)"
  shows "active (currentObjects (processObject E targets i s) ! k) = active (currentObjects s ! k)"
proof -
  let ?p = "beforeCollision E i s"
  from assms(1,3) have "k \<notin> set targets" by auto
  with assms(2) have "currentObjects (snd (collide E targets i ?p)) ! k = currentObjects ?p ! k"
    by (simp add: collide_nth)
  then show ?thesis
    by (simp add: processObject_split Let_def beforeCollision_nth)
qed

lemma processObject_prompt_removed:
  assumes "promptKind (currentObjects s ! i)" "active (currentObjects s ! i)"
    and "\<not> active (currentObjects (processObject E targets i s) ! i)"
  shows "keptObjects (processObject E targets i s) = keptObjects s
         \<and> hasChanges (processObject E targets i s)"
proof -
  let ?p = "beforeCollision E i s"
  let ?c = "collide E targets i ?p"
  have sp: "promptKind (currentObjects ?p ! i)"
    using assms(1) promptKind_fields [of "currentObjects ?p ! i" "currentObjects s ! i"]
    by (simp add: beforeCollision_nth)
  have ac: "active (currentObjects ?p ! i)" using assms(2) by (simp add: beforeCollision_nth)
  have "\<not> active (currentObjects (snd ?c) ! i)"
    using assms(3) ac by (simp add: processObject_split Let_def split: if_splits)
  from collide_prompt_removed [OF sp ac this]
  have "\<not> fst ?c" "hasChanges (snd ?c)" by simp_all
  then have "\<not> fst (cull i ?c)" "hasChanges (snd (cull i ?c))"
    using cull_fst [of i ?c] cull_hasChanges [of ?c i] by auto
  then show ?thesis using ac by (simp add: processObject_split Let_def)
qed

lemma removalInv_step:
  assumes inv: "removalInv targets (i # todo) s" and i: "i \<notin> set todo"
  shows "removalInv targets todo (processObject E targets i s)"
proof -
  let ?s' = "processObject E targets i s"
  from inv have
    a: "\<And>k. k < length (currentObjects s) \<Longrightarrow> promptKind (currentObjects s ! k) \<Longrightarrow>
          \<not> active (currentObjects s ! k) \<Longrightarrow>
          k \<notin> set (keptObjects s) \<and> hasChanges s \<and> k \<noteq> i \<and> k \<notin> set todo"
    and b: "i \<notin> set (keptObjects s)" "\<And>k. k \<in> set todo \<Longrightarrow> k \<notin> set (keptObjects s)"
    and c: "\<forall>t \<in> set targets. \<not> promptKind (currentObjects s ! t)"
    and d: "\<forall>ob \<in> set (newSpawns s). active ob"
    by (auto simp: removalInv_def)
  have kept: "set (keptObjects ?s') \<subseteq> insert i (set (keptObjects s))"
    by (rule processObject_kept)
  have 1: "k \<notin> set (keptObjects ?s') \<and> hasChanges ?s' \<and> k \<notin> set todo"
    if k: "k < length (currentObjects ?s')" "promptKind (currentObjects ?s' ! k)"
          "\<not> active (currentObjects ?s' ! k)" for k
  proof (cases "k = i")
    case False
    from k(2) have sp: "promptKind (currentObjects s ! k)"
      by (simp add: processObject_promptKind)
    from processObject_prompt_others [OF sp False c] k(3)
    have "\<not> active (currentObjects s ! k)" by simp
    from a [OF _ sp this] k(1) have "k \<notin> set (keptObjects s)" "hasChanges s" "k \<notin> set todo"
      by simp_all
    with False kept processObject_hasChanges [of s E targets i] show ?thesis by auto
  next
    case True
    from k(2) True have sp: "promptKind (currentObjects s ! i)"
      by (simp add: processObject_promptKind)
    have ac: "active (currentObjects s ! i)"
      using a [OF _ sp] k(1) True by auto
    from processObject_prompt_removed [OF sp ac] k(3) True
    have "keptObjects ?s' = keptObjects s" "hasChanges ?s'" by simp_all
    with b(1) i True show ?thesis by simp
  qed
  have 2: "k \<notin> set (keptObjects ?s')" if "k \<in> set todo" for k
    using that b(2) [OF that] i kept by auto
  have 3: "\<forall>t \<in> set targets. \<not> promptKind (currentObjects ?s' ! t)"
    using c by (simp add: processObject_promptKind)
  have 4: "\<forall>ob \<in> set (newSpawns ?s'). active ob"
    using d by (rule processObject_newSpawns)
  show ?thesis unfolding removalInv_def using 1 2 3 4 by blast
qed

lemma removalInv_fold:
  "removalInv targets todo s \<Longrightarrow> distinct todo \<Longrightarrow>
   removalInv targets [] (fold (processObject E targets) todo s)"
proof (induction todo arbitrary: s)
  case Nil
  then show ?case by simp
next
  case (Cons i todo)
  from Cons.prems have "removalInv targets todo (processObject E targets i s)"
    by (intro removalInv_step) simp_all
  with Cons.IH Cons.prems(2) show ?case by simp
qed

lemma targetsOf_not_prompt: "t \<in> set (targetsOf objs) \<Longrightarrow> \<not> promptKind (objs ! t)"
  by (auto simp: targetsOf_def isTarget_def promptKind_def)

lemma spawn_active [simp]:
  "active (spawnGem R P n z)" "active (spawnLetter R P n z av)"
  by (simp_all add: spawnGem_def spawnLetter_def Let_def newObject_def)

lemma spawnAliens_active: "ob \<in> set (spawnAliens R P n z) \<Longrightarrow> active ob"
  by (auto simp: spawnAliens_def Let_def newObject_def)

lemma spawnBarrel_active: "ob \<in> set (spawnBarrel R P n z lanes i) \<Longrightarrow> active ob"
  by (auto simp: spawnBarrel_def Let_def newObject_def case_prod_beta split: if_splits)

lemma spawned_active: "ob \<in> set (fst (spawning R P n tr nl kept)) \<Longrightarrow> active ob"
  by (auto simp: spawning_def Let_def spawnBarrels_def split: if_splits
        intro: spawnAliens_active spawnBarrel_active)

text \<open>One tick on concrete stores, step by step.\<close>

lemma quiet_spawning:
  "tr < nl \<Longrightarrow> spawning quietRandom playing n tr nl kept = ([], nl, False)"
  by (simp add: spawning_def Let_def quietRandom_def)

lemma letter_step:
  "processObject (mkEnv calmFrame playing) [] 0
     \<lparr> currentObjects = [letter], keptObjects = [], newSpawns = [], hasChanges = False,
       store = g, events = [] \<rparr>
   = \<lparr> currentObjects = [letter\<lparr>position := (Num 0, Num 1, Num (- 0.404)), active := False\<rparr>],
       keptObjects = [0], newSpawns = [], hasChanges = True,
       store = collectLetter 3 g,
       events = [PlayLetterCollect, ParticleBurst (Num 0, Num 1, Num (- 0.404)) ''#ffffff''] \<rparr>"
proof -
  let ?E = "mkEnv calmFrame playing"
  let ?init = "\<lparr> currentObjects = [letter], keptObjects = [], newSpawns = [], hasChanges = False,
       store = g, events = [] \<rparr>"
  let ?moved = "\<lparr> currentObjects = [letter\<lparr>position := (Num 0, Num 1, Num (- 0.404))\<rparr>],
       keptObjects = [], newSpawns = [], hasChanges = False, store = g, events = [] \<rparr>"
  let ?hit = "\<lparr> currentObjects = [letter\<lparr>position := (Num 0, Num 1, Num (- 0.404)), active := False\<rparr>],
       keptObjects = [], newSpawns = [], hasChanges = True,
       store = collectLetter 3 g,
       events = [PlayLetterCollect, ParticleBurst (Num 0, Num 1, Num (- 0.404)) ''#ffffff''] \<rparr>"
  have "modify 0 (move ?E) ?init = ?moved"
    by (simp add: calmEnv modify_def move_def letter_def newObject_def px_def py_def pz_def)
  then have b: "beforeCollision ?E 0 ?init = ?moved"
    by (simp add: beforeCollision_plain letter_def newObject_def)
  have m: "magnet ?E 0 ?moved = (True, ?moved)"
    by (simp add: magnet_only_gems letter_def newObject_def)
  have p: "playerCollision ?E 0 ?moved = (True, ?hit)"
    by (simp add: calmEnv playerCollision_def Let_def letter_def newObject_def px_def py_def pz_def
          jgt_def scaleOr1_def isDamageSource_def collectItem_def colorOrWhite_def modify_def emit_def)
  have c: "collide ?E [] 0 ?moved = (True, ?hit)"
    using m p by (simp add: collide_def letter_def newObject_def)
  have "cull 0 (True, ?hit) = (True, ?hit)"
    by (simp add: cull_def letter_def newObject_def pz_def jgt_def REMOVE_DISTANCE_def)
  with b c show ?thesis
    by (simp add: processObject_split Let_def letter_def newObject_def)
qed

lemma letter_tick:
  "objectsRef (tick calmFrame playing (world [letter]))
     = [letter\<lparr>position := (Num 0, Num 1, Num (- 0.404)), active := False\<rparr>]"
proof -
  have t: "targetsOf [letter] = []"
    by (simp add: targetsOf_def isTarget_def letter_def newObject_def)
  have e: "dist' (mkEnv calmFrame playing) = 0.096"
    by (simp add: calmEnv)
  have r: "random calmFrame = quietRandom"
    by (simp add: calmFrame_def)
  have loop: "runLoop (mkEnv calmFrame playing) [letter]
      \<lparr> currentObjects = [letter], keptObjects = [], newSpawns = [], hasChanges = False,
        store = g, events = [] \<rparr>
    = \<lparr> currentObjects = [letter\<lparr>position := (Num 0, Num 1, Num (- 0.404)), active := False\<rparr>],
        keptObjects = [0], newSpawns = [], hasChanges = True,
        store = collectLetter 3 g,
        events = [PlayLetterCollect, ParticleBurst (Num 0, Num 1, Num (- 0.404)) ''#ffffff''] \<rparr>"
    for g
    by (simp add: runLoop_def t letter_step)
  show ?thesis
    by (simp add: tick_def Let_def world_def loop e r quiet_spawning)
qed

lemma gem_step:
  "processObject (mkEnv calmFrame playing) [] 0
     \<lparr> currentObjects = [gem, bullet], keptObjects = [], newSpawns = [], hasChanges = False,
       store = g, events = [] \<rparr>
   = \<lparr> currentObjects = [gem\<lparr>position := (Num 0, Num 1, Num (- 0.904)), active := False\<rparr>, bullet],
       keptObjects = [], newSpawns = [], hasChanges = True,
       store = collectGem 50 g,
       events = [PlayGemCollect, ParticleBurst (Num 0, Num 1, Num (- 0.904)) ''#ffffff''] \<rparr>"
proof -
  let ?E = "mkEnv calmFrame playing"
  let ?init = "\<lparr> currentObjects = [gem, bullet], keptObjects = [], newSpawns = [],
       hasChanges = False, store = g, events = [] \<rparr>"
  let ?moved = "\<lparr> currentObjects = [gem\<lparr>position := (Num 0, Num 1, Num (- 0.904))\<rparr>, bullet],
       keptObjects = [], newSpawns = [], hasChanges = False, store = g, events = [] \<rparr>"
  let ?got = "\<lparr> currentObjects = [gem\<lparr>position := (Num 0, Num 1, Num (- 0.904)), active := False\<rparr>, bullet],
       keptObjects = [], newSpawns = [], hasChanges = True,
       store = collectGem 50 g,
       events = [PlayGemCollect, ParticleBurst (Num 0, Num 1, Num (- 0.904)) ''#ffffff''] \<rparr>"
  have "modify 0 (move ?E) ?init = ?moved"
    by (simp add: calmEnv modify_def move_def gem_def newObject_def px_def py_def pz_def)
  then have b: "beforeCollision ?E 0 ?init = ?moved"
    by (simp add: beforeCollision_plain gem_def newObject_def)
  have m: "magnet ?E 0 ?moved = (False, ?got)"
    by (simp add: calmEnv magnet_def Let_def gem_def newObject_def px_def py_def pz_def
          pointsOr50_def colorOrWhite_def modify_def emit_def)
  have c: "collide ?E [] 0 ?moved = (False, ?got)"
    using m by (simp add: collide_def)
  have "cull 0 (False, ?got) = (False, ?got)"
    by (simp add: cull_def gem_def newObject_def pz_def jgt_def REMOVE_DISTANCE_def)
  with b c show ?thesis
    by (simp add: processObject_split Let_def gem_def newObject_def)
qed

lemma bullet_step:
  "processObject (mkEnv calmFrame playing) [] 1
     \<lparr> currentObjects = [ob, bullet], keptObjects = [], newSpawns = [], hasChanges = True,
       store = g, events = ev \<rparr>
   = \<lparr> currentObjects = [ob, bullet\<lparr>position := (Num 0, Num 0, Num (- 6.06))\<rparr>],
       keptObjects = [1], newSpawns = [], hasChanges = True, store = g, events = ev \<rparr>"
proof -
  let ?E = "mkEnv calmFrame playing"
  let ?init = "\<lparr> currentObjects = [ob, bullet], keptObjects = [], newSpawns = [],
       hasChanges = True, store = g, events = ev \<rparr>"
  let ?moved = "\<lparr> currentObjects = [ob, bullet\<lparr>position := (Num 0, Num 0, Num (- 6.06))\<rparr>],
       keptObjects = [], newSpawns = [], hasChanges = True, store = g, events = ev \<rparr>"
  have "modify 1 (move ?E) ?init = ?moved"
    by (simp add: calmEnv modify_def move_def bullet_def newObject_def px_def py_def pz_def
          BULLET_SPEED_def)
  then have b: "beforeCollision ?E 1 ?init = ?moved"
    by (simp add: beforeCollision_plain bullet_def newObject_def)
  have m: "magnet ?E 1 ?moved = (True, ?moved)"
    by (simp add: magnet_only_gems bullet_def newObject_def)
  have "bulletCollision ?E [] 1 ?moved = (True, ?moved)"
    by (simp add: bulletCollision_def bullet_def newObject_def pz_def)
  then have c: "collide ?E [] 1 ?moved = (True, ?moved)"
    using m by (simp add: collide_def bullet_def newObject_def)
  have "cull 1 (True, ?moved) = (True, ?moved)"
    by (simp add: cull_def bullet_def newObject_def)
  with b c show ?thesis
    by (simp add: processObject_split Let_def bullet_def newObject_def)
qed

lemma gem_bullet_tick:
  "objectsRef (tick calmFrame playing (world [gem, bullet]))
     = [bullet\<lparr>position := (Num 0, Num 0, Num (- 6.06))\<rparr>]"
proof -
  have t: "targetsOf [gem, bullet] = []"
    by (simp add: targetsOf_def isTarget_def gem_def bullet_def newObject_def)
  have e: "dist' (mkEnv calmFrame playing) = 0.096"
    by (simp add: calmEnv)
  have r: "random calmFrame = quietRandom"
    by (simp add: calmFrame_def)
  have u: "[0..<length [gem, bullet]] = [0, 1]" by (simp add: upt_rec)
  have loop: "runLoop (mkEnv calmFrame playing) [gem, bullet]
      \<lparr> currentObjects = [gem, bullet], keptObjects = [], newSpawns = [], hasChanges = False,
        store = g, events = [] \<rparr>
    = \<lparr> currentObjects = [gem\<lparr>position := (Num 0, Num 1, Num (- 0.904)), active := False\<rparr>,
                          bullet\<lparr>position := (Num 0, Num 0, Num (- 6.06))\<rparr>],
        keptObjects = [1], newSpawns = [], hasChanges = True,
        store = collectGem 50 g,
        events = [PlayGemCollect, ParticleBurst (Num 0, Num 1, Num (- 0.904)) ''#ffffff''] \<rparr>"
    for g
    unfolding runLoop_def t u
    by (simp only: fold_Cons fold_Nil comp_apply id_apply gem_step bullet_step)
  show ?thesis
    by (simp add: tick_def Let_def world_def loop e r quiet_spawning)
qed

lemma tick_keeps_prompt_kinds_active:
  assumes "\<forall>ob \<in> set (objectsRef w). promptKind ob \<longrightarrow> active ob"
  shows "\<forall>ob \<in> set (objectsRef (tick F P w)). promptKind ob \<longrightarrow> active ob"
proof (cases "status P = PLAYING")
  case False
  with assms show ?thesis by (simp add: tick_def)
next
  case True
  let ?E = "mkEnv F P"
  let ?T = "targetsOf (objectsRef w)"
  let ?init = "\<lparr> currentObjects = objectsRef w, keptObjects = [], newSpawns = [],
               hasChanges = False, store = updateTime (safeDelta ?E) (gameStore w),
               events = emitted w \<rparr>"
  let ?s = "runLoop ?E (objectsRef w) ?init"
  let ?kept = "map (\<lambda>k. currentObjects ?s ! k) (keptObjects ?s) @ newSpawns ?s"
  let ?sp = "spawning (random F) P (length (objectsRef w)) (distanceTraveled w + dist' ?E)
               (nextLetterDistance w) ?kept"
  have "removalInv ?T [0..<length (objectsRef w)] ?init"
    using assms by (auto simp: removalInv_def dest: targetsOf_not_prompt)
  then have "removalInv ?T [] ?s"
    unfolding runLoop_def by (rule removalInv_fold) simp
  then have inv: "\<And>k. k < length (currentObjects ?s) \<Longrightarrow> promptKind (currentObjects ?s ! k) \<Longrightarrow>
                   \<not> active (currentObjects ?s ! k) \<Longrightarrow> k \<notin> set (keptObjects ?s) \<and> hasChanges ?s"
    and spw: "\<forall>ob \<in> set (newSpawns ?s). active ob"
    by (auto simp: removalInv_def)
  have valid: "\<forall>k \<in> set (keptObjects ?s). k < length (currentObjects ?s)"
    by (rule runLoop_kept_valid) simp_all
  have k: "\<forall>ob \<in> set ?kept. promptKind ob \<longrightarrow> active ob"
    using inv valid spw by auto
  have sp: "\<forall>ob \<in> set (fst ?sp). active ob"
    using spawned_active by blast
  have cur: "\<forall>ob \<in> set (currentObjects ?s). promptKind ob \<longrightarrow> active ob" if "\<not> hasChanges ?s"
  proof (intro ballI impI)
    fix ob assume ob: "ob \<in> set (currentObjects ?s)" "promptKind ob"
    then obtain k where k: "k < length (currentObjects ?s)" "ob = currentObjects ?s ! k"
      by (auto simp: in_set_conv_nth)
    show "active ob"
    proof (rule ccontr)
      assume "\<not> active ob"
      with inv [OF k(1)] ob(2) k(2) have "hasChanges ?s" by simp
      with that show False by simp
    qed
  qed
  have "objectsRef (tick F P w) =
          (if hasChanges ?s \<or> snd (snd ?sp) then ?kept @ fst ?sp else currentObjects ?s)"
    using tick_objects [OF True] by (simp add: Let_def)
  then show ?thesis using k sp cur by auto
qed

text \<open>
  C1, as the claim states it, fails: a letter that the player picks up is deactivated by
  the tick and is still in the store after it.  The pick-up branch, like the two hit
  branches for the player, sets \<open>active\<close> to false and leaves \<open>keep\<close> set.
\<close>

theorem inactive_letter_survives:
  "map active (objectsRef (world [letter])) = [True]
   \<and> map active (objectsRef (tick calmFrame playing (world [letter]))) = [False]"
  by (simp add: letter_tick) (simp add: world_def letter_def newObject_def)

text \<open>
  C1, amended.  For bullets, shop portals and gems the claim holds: when the store holds no
  inactive entity of these kinds, it holds none after the tick, so that an entity of these
  kinds that a tick deactivates is removed from the store at the end of that same tick.
\<close>

theorem tick_removes_prompt_kinds:
  "(\<forall>ob \<in> set (objectsRef w). promptKind ob \<longrightarrow> active ob) \<Longrightarrow>
   (\<forall>ob \<in> set (objectsRef (tick F P w)). promptKind ob \<longrightarrow> active ob)"
  by (rule tick_keeps_prompt_kinds_active)

theorem tick_removes_prompt_kinds_witness:
  "map (\<lambda>ob. (type ob, active ob)) (objectsRef (world [gem, bullet]))
     = [(GEM, True), (BULLET, True)]
   \<and> map (\<lambda>ob. (type ob, active ob)) (objectsRef (tick calmFrame playing (world [gem, bullet])))
     = [(BULLET, True)]
   \<and> list_all (\<lambda>ob. promptKind ob \<longrightarrow> active ob)
       (objectsRef (tick calmFrame playing (world [gem, bullet])))"
proof -
  have a: "\<forall>ob \<in> set (objectsRef (world [gem, bullet])). promptKind ob \<longrightarrow> active ob"
    by (simp add: world_def object_defs)
  from tick_removes_prompt_kinds [OF a, of calmFrame playing]
  have "list_all (\<lambda>ob. promptKind ob \<longrightarrow> active ob)
          (objectsRef (tick calmFrame playing (world [gem, bullet])))"
    by (simp add: list_all_iff)
  then show ?thesis
    by (simp add: gem_bullet_tick) (simp add: world_def object_defs)
qed

subsection \<open>Saucer fire\<close>

lemma squares_zero_iff:
  fixes a b c :: real
  shows "a * a + b * b + c * c = 0 \<longleftrightarrow> a = 0 \<and> b = 0 \<and> c = 0"
proof
  assume h: "a * a + b * b + c * c = 0"
  have "0 \<le> a * a" "0 \<le> b * b" "0 \<le> c * c" by simp_all
  with h have "a * a = 0" "b * b = 0" "c * c = 0" by linarith+
  then show "a = 0 \<and> b = 0 \<and> c = 0" by simp
qed simp

text \<open>The length of the aiming vector is zero only when all its components are.\<close>

lemma aim_zero_length:
  fixes a b c :: real
  shows "sqrt (a * a + b * b + c * c) = 0 \<longleftrightarrow> a = 0 \<and> b = 0 \<and> c = 0"
proof -
  have "0 \<le> a * a" "0 \<le> b * b" "0 \<le> c * c" by simp_all
  then have "0 \<le> a * a + b * b + c * c" by linarith
  then have "sqrt (a * a + b * b + c * c) = 0 \<longleftrightarrow> a * a + b * b + c * c = 0" by simp
  then show ?thesis using squares_zero_iff [of a b c] by simp
qed

lemma scaled_direction_length:
  fixes a b c :: real
  assumes "a \<noteq> 0 \<or> b \<noteq> 0 \<or> c \<noteq> 0"
  shows "sqrt ((a / sqrt (a * a + b * b + c * c) * v)\<^sup>2
             + (b / sqrt (a * a + b * b + c * c) * v)\<^sup>2
             + (c / sqrt (a * a + b * b + c * c) * v)\<^sup>2) = \<bar>v\<bar>"
proof -
  let ?q = "a * a + b * b + c * c"
  have "0 \<le> a * a" "0 \<le> b * b" "0 \<le> c * c" by simp_all
  then have "0 \<le> ?q" by linarith
  moreover have "?q \<noteq> 0" using assms squares_zero_iff [of a b c] by blast
  ultimately have q: "0 < ?q" by linarith
  then have m: "(sqrt ?q)\<^sup>2 = ?q" by simp
  have "(a / sqrt ?q * v)\<^sup>2 + (b / sqrt ?q * v)\<^sup>2 + (c / sqrt ?q * v)\<^sup>2
          = (a\<^sup>2 + b\<^sup>2 + c\<^sup>2) * v\<^sup>2 / (sqrt ?q)\<^sup>2"
    by (simp add: power_mult_distrib power_divide add_divide_distrib distrib_right)
  also have "\<dots> = v\<^sup>2"
    using q by (simp add: m power2_eq_square)
  finally show ?thesis by simp
qed

text \<open>
  Away from the point it aims at, a saucer at a finite position fires a shot whose
  velocity has the length of the enemy-bullet speed, 20, or half of it, 10, in slow motion.
\<close>

lemma saucer_shot_speed:
  assumes "position ob = (Num x, Num y, Num z)"
    and "(x, y, z) \<noteq> (playerX E, playerY E + 0.5, playerZ E)"
  shows "\<exists>a b c. velocity (enemyBullet E i ob) = Some (Num a, Num b, Num c)
           \<and> sqrt (a\<^sup>2 + b\<^sup>2 + c\<^sup>2) = (if isSlowMotion (props E) then 10 else 20)"
proof -
  let ?a = "playerX E - x" and ?b = "playerY E + 0.5 - y" and ?c = "playerZ E - z"
  let ?v = "if isSlowMotion (props E) then ENEMY_BULLET_SPEED * 0.5 else ENEMY_BULLET_SPEED"
  let ?m = "sqrt (?a * ?a + ?b * ?b + ?c * ?c)"
  have nz: "?a \<noteq> 0 \<or> ?b \<noteq> 0 \<or> ?c \<noteq> 0" using assms(2) by auto
  then have m0: "?m \<noteq> 0" using aim_zero_length [of ?a ?b ?c] by blast
  have nn: "\<not> ?a * ?a + ?b * ?b + ?c * ?c < 0"
    by (simp add: not_less add_nonneg_nonneg)
  have v: "aimVelocity E ob = (Num (?a / ?m * ?v), Num (?b / ?m * ?v), Num (?c / ?m * ?v))"
    using m0 nn assms(1) unfolding aimVelocity_def Let_def px_def py_def pz_def
    by simp
  have "sqrt ((?a / ?m * ?v)\<^sup>2 + (?b / ?m * ?v)\<^sup>2 + (?c / ?m * ?v)\<^sup>2) = \<bar>?v\<bar>"
    using scaled_direction_length [OF nz] .
  moreover have "\<bar>?v\<bar> = (if isSlowMotion (props E) then 10 else 20)"
    by (simp add: ENEMY_BULLET_SPEED_def)
  ultimately show ?thesis using v by (auto simp: enemyBullet_def)
qed

text \<open>Slow motion does not touch a shot in flight: its velocity stays, and its movement
  is the same whether slow motion is on or off.\<close>

lemma enemy_bullet_keeps_velocity:
  assumes "type ob = ENEMY_BULLET"
  shows "velocity (move E ob) = velocity ob"
    and "move (mkEnv F (P\<lparr>isSlowMotion := b\<rparr>)) ob = move (mkEnv F P) ob"
  using assms
  by (simp_all add: move_def mkEnv_def Let_def case_prod_beta split: option.splits prod.splits)

text \<open>The loop body reads the velocity of an entity and never writes it.\<close>

lemma move_velocity: "velocity (move E ob) = velocity ob"
  by (simp add: move_def Let_def case_prod_beta split: option.splits)

lemma dodger_velocity: "velocity (dodger E i ob) = velocity ob"
  by (simp add: dodger_def Let_def)

lemma hitTarget_velocity:
  "velocity (currentObjects (hitTarget E i t s) ! k) = velocity (currentObjects s ! k)"
  by (simp add: hitTarget_def Let_def modify_nth)

lemma collide_velocity:
  "velocity (currentObjects (snd (collide E targets i s)) ! k) = velocity (currentObjects s ! k)"
  by (simp add: collide_def magnet_def bulletCollision_def playerCollision_def Let_def
        case_prod_beta modify_nth bulletTargets_find hitTarget_velocity split: option.splits)

lemma beforeCollision_velocity:
  "velocity (currentObjects (beforeCollision E i s) ! k) = velocity (currentObjects s ! k)"
  by (simp add: beforeCollision_def saucer_def alienAI_def Let_def modify_nth move_velocity
        dodger_velocity)

lemma processObject_velocity:
  "velocity (currentObjects (processObject E targets i s) ! k) = velocity (currentObjects s ! k)"
  by (simp add: processObject_split Let_def collide_velocity beforeCollision_velocity)

lemma runLoop_velocity:
  "velocity (currentObjects (runLoop E objs s) ! k) = velocity (currentObjects s ! k)"
proof -
  have "velocity (currentObjects (fold (processObject E targets) ks s) ! k)
          = velocity (currentObjects s ! k)" for targets ks
    by (induction ks arbitrary: s) (simp_all add: processObject_velocity)
  then show ?thesis by (simp add: runLoop_def)
qed

text \<open>
  The aim point itself is the one position left out above: there the direction is \<open>0/0\<close>.
  The saucers of the program are never there.  The spawning block puts a saucer at height 1,
  neither movement nor strafing changes the height of a ground enemy, and the aim point is
  half a unit above the player object, whose height \<open>Player.tsx\<close> leaves at 0.
\<close>

lemma aimVelocity_at_aim_point:
  assumes "position ob = (Num (playerX E), Num (playerY E + 0.5), Num (playerZ E))"
  shows "aimVelocity E ob = (NaN, NaN, NaN)"
  using assms by (simp add: aimVelocity_def Let_def px_def py_def pz_def)

lemma spawned_saucer_height:
  assumes "ob \<in> set (spawnBarrel R P n z lanes i)" and "variant ob = Some SAUCER"
  shows "py ob = Num 1"
  using assms
  by (auto simp: spawnBarrel_def Let_def newObject_def py_def split: if_splits)

lemma barrel_height:
  assumes "type ob = BARREL"
  shows "py (move E ob) = py ob" and "py (dodger E i ob) = py ob"
  using assms by (simp_all add: move_def dodger_def Let_def py_def)

lemma saucer_above_aim_point:
  assumes "py ob = Num 1" and "playerY E = 0"
  shows "position ob \<noteq> (Num (playerX E), Num (playerY E + 0.5), Num (playerZ E))"
  using assms by (auto simp: py_def)

lemma move_more_fields [simp]:
  "variant (move E ob) = variant ob" "lastShotTime (move E ob) = lastShotTime ob"
  by (simp_all add: move_def Let_def split: option.splits prod.splits)

text \<open>The velocity of a shot is the direction from the saucer to the aim point, divided
  by its length and scaled by the speed of the shot.\<close>

lemma aimVelocity_direction:
  assumes "position ob = (Num x, Num y, Num z)"
    and "(x, y, z) \<noteq> (playerX E, playerY E + 0.5, playerZ E)"
  shows "aimVelocity E ob =
     (let dx = playerX E - x; dy = playerY E + 0.5 - y; dz = playerZ E - z;
          m = sqrt (dx * dx + dy * dy + dz * dz);
          v = (if isSlowMotion (props E) then ENEMY_BULLET_SPEED * 0.5 else ENEMY_BULLET_SPEED)
      in (Num (dx / m * v), Num (dy / m * v), Num (dz / m * v)))"
proof -
  let ?a = "playerX E - x" and ?b = "playerY E + 0.5 - y" and ?c = "playerZ E - z"
  let ?m = "sqrt (?a * ?a + ?b * ?b + ?c * ?c)"
  have nz: "?a \<noteq> 0 \<or> ?b \<noteq> 0 \<or> ?c \<noteq> 0" using assms(2) by auto
  then have m0: "?m \<noteq> 0" using aim_zero_length [of ?a ?b ?c] by blast
  have nn: "\<not> ?a * ?a + ?b * ?b + ?c * ?c < 0"
    by (simp add: not_less add_nonneg_nonneg)
  show ?thesis
    using m0 nn assms(1) unfolding aimVelocity_def Let_def px_def py_def pz_def
    by simp
qed

text \<open>What the iteration of the loop body for a saucer adds to the new spawns: one enemy
  bullet, fired from the place the saucer has moved to, when the saucer is active and its
  last shot is more than 2.5 seconds old.\<close>

lemma processObject_saucer_newSpawns:
  assumes "i < length (currentObjects s)"
    and "type (currentObjects s ! i) = BARREL"
    and "variant (currentObjects s ! i) = Some SAUCER"
  shows "newSpawns (processObject E targets i s) =
     (if active (currentObjects s ! i)
         \<and> time E > (case lastShotTime (currentObjects s ! i) of
                        None \<Rightarrow> time E + shotRoll (rnd E) i | Some t \<Rightarrow> t) + 2.5
      then newSpawns s @ [enemyBullet E i (move E (currentObjects s ! i))]
      else newSpawns s)"
proof -
  let ?ob = "currentObjects s ! i"
  let ?m = "modify i (move E) s"
  have d: "modify i (dodger E i) ?m = ?m"
    using assms by (simp add: modify_def dodger_def)
  have o: "currentObjects ?m ! i = move E ?ob" using assms(1) by (simp add: modify_nth)
  have a: "newSpawns (alienAI E i (saucer E i ?m)) = newSpawns (saucer E i ?m)"
    using assms(2) by (simp add: alienAI_def Let_def saucer_nth o)
  have "newSpawns (processObject E targets i s) = newSpawns (beforeCollision E i s)"
    by (simp add: processObject_split Let_def)
  also have "\<dots> = newSpawns (saucer E i ?m)"
    by (simp add: beforeCollision_def d a)
  also have "\<dots> = (if active ?ob
         \<and> time E > (case lastShotTime ?ob of
                        None \<Rightarrow> time E + shotRoll (rnd E) i | Some t \<Rightarrow> t) + 2.5
      then newSpawns s @ [enemyBullet E i (move E ?ob)]
      else newSpawns s)"
    using assms(2,3) by (simp add: saucer_def Let_def o)
  finally show ?thesis .
qed

lemma saucerShip_moved:
  "move slowEnv saucerShip = saucerShip\<lparr>position := (Num 0, Num 1, Num (- 1.2))\<rparr>"
  by (simp add: move_def slowEnv_eq saucerShip_def newObject_def px_def py_def pz_def Let_def)

text \<open>
  C7.  In slow motion, with the enemy-bullet speed 20, the iteration of the loop body for a
  saucer adds nothing to the new spawns or one enemy bullet, fired when the saucer is
  active and due.  The velocity of that bullet is the direction from the saucer to the point
  half a unit above the player, divided by its length and scaled by 10, and so has length
  10; the saucer is at a finite position other than the point it aims at, where there is
  no direction to normalise.  The loop changes the velocity of no entity of the store, and
  an enemy bullet moves the same way whether slow motion is on or off.
\<close>

theorem saucer_fire_in_slow_motion:
  assumes "i < length (currentObjects s)"
    and "type (currentObjects s ! i) = BARREL"
    and "variant (currentObjects s ! i) = Some SAUCER"
    and "isSlowMotion (props E)"
    and "position (move E (currentObjects s ! i)) = (Num x, Num y, Num z)"
    and "(x, y, z) \<noteq> (playerX E, playerY E + 0.5, playerZ E)"
  shows "ENEMY_BULLET_SPEED = 20
      \<and> newSpawns (processObject E targets i s) =
          (if active (currentObjects s ! i)
              \<and> time E > (case lastShotTime (currentObjects s ! i) of
                             None \<Rightarrow> time E + shotRoll (rnd E) i | Some t \<Rightarrow> t) + 2.5
           then newSpawns s @ [enemyBullet E i (move E (currentObjects s ! i))]
           else newSpawns s)
      \<and> type (enemyBullet E i (move E (currentObjects s ! i))) = ENEMY_BULLET
      \<and> (let dx = playerX E - x; dy = playerY E + 0.5 - y; dz = playerZ E - z;
              m = sqrt (dx * dx + dy * dy + dz * dz)
          in velocity (enemyBullet E i (move E (currentObjects s ! i)))
               = Some (Num (dx / m * 10), Num (dy / m * 10), Num (dz / m * 10))
           \<and> sqrt ((dx / m * 10)\<^sup>2 + (dy / m * 10)\<^sup>2 + (dz / m * 10)\<^sup>2) = 10)
      \<and> velocity (currentObjects (runLoop E objs s) ! k) = velocity (currentObjects s ! k)
      \<and> (type bl = ENEMY_BULLET \<longrightarrow>
           move (mkEnv F (P\<lparr>isSlowMotion := True\<rparr>)) bl
             = move (mkEnv F (P\<lparr>isSlowMotion := False\<rparr>)) bl)"
proof -
  let ?ob = "move E (currentObjects s ! i)"
  let ?a = "playerX E - x" and ?b = "playerY E + 0.5 - y" and ?c = "playerZ E - z"
  let ?m = "sqrt (?a * ?a + ?b * ?b + ?c * ?c)"
  have nz: "?a \<noteq> 0 \<or> ?b \<noteq> 0 \<or> ?c \<noteq> 0" using assms(6) by auto
  have v: "velocity (enemyBullet E i ?ob)
             = Some (Num (?a / ?m * 10), Num (?b / ?m * 10), Num (?c / ?m * 10))"
    using aimVelocity_direction [OF assms(5,6)] assms(4)
    by (simp add: enemyBullet_def Let_def ENEMY_BULLET_SPEED_def)
  have l: "sqrt ((?a / ?m * 10)\<^sup>2 + (?b / ?m * 10)\<^sup>2 + (?c / ?m * 10)\<^sup>2) = 10"
    using scaled_direction_length [OF nz, of 10] by simp
  have t: "type (enemyBullet E i ?ob) = ENEMY_BULLET"
    by (simp add: enemyBullet_def newObject_def)
  note fired = processObject_saucer_newSpawns [OF assms(1,2,3), of E targets]
  have flight: "type bl = ENEMY_BULLET \<longrightarrow>
           move (mkEnv F (P\<lparr>isSlowMotion := True\<rparr>)) bl
             = move (mkEnv F (P\<lparr>isSlowMotion := False\<rparr>)) bl"
    using enemy_bullet_keeps_velocity(2) [where ob = bl and F = F and P = P and b = True]
      enemy_bullet_keeps_velocity(2) [where ob = bl and F = F and P = P and b = False]
    by simp
  have speed: "ENEMY_BULLET_SPEED = 20" by (simp add: ENEMY_BULLET_SPEED_def)
  have kept: "velocity (currentObjects (runLoop E objs s) ! k) = velocity (currentObjects s ! k)"
    by (rule runLoop_velocity)
  from speed fired t v l kept flight show ?thesis
    unfolding Let_def by blast
qed

theorem saucer_fire_in_slow_motion_witness:
  "isSlowMotion (props slowEnv)
   \<and> position (move slowEnv (currentObjects ambush ! 0)) = (Num 0, Num 1, Num (- 1.2))
   \<and> (0, 1, - 1.2) \<noteq> (playerX slowEnv, playerY slowEnv + 0.5, playerZ slowEnv)
   \<and> map type (newSpawns (processObject slowEnv [] 0 ambush)) = [ENEMY_BULLET]
   \<and> map velocity (newSpawns (processObject slowEnv [] 0 ambush))
       = [Some (Num 0, Num (- 50 / 13), Num (120 / 13))]
   \<and> sqrt (0\<^sup>2 + (- 50 / 13)\<^sup>2 + (120 / 13)\<^sup>2) = (10 :: real)"
proof -
  have ob: "currentObjects ambush ! 0 = saucerShip" by (simp add: ambush_def)
  have h: "0 < length (currentObjects ambush)"
    "type (currentObjects ambush ! 0) = BARREL"
    "variant (currentObjects ambush ! 0) = Some SAUCER"
    "isSlowMotion (props slowEnv)"
    "position (move slowEnv (currentObjects ambush ! 0)) = (Num 0, Num 1, Num (- 1.2))"
    "(0, 1, - 1.2) \<noteq> (playerX slowEnv, playerY slowEnv + 0.5, playerZ slowEnv)"
    unfolding ob saucerShip_moved
    by (simp_all add: ambush_def saucerShip_def newObject_def slowEnv_eq)
  have due: "active (currentObjects ambush ! 0)
              \<and> time slowEnv > (case lastShotTime (currentObjects ambush ! 0) of
                             None \<Rightarrow> time slowEnv + shotRoll (rnd slowEnv) 0 | Some t \<Rightarrow> t) + 2.5"
    unfolding ob by (simp add: saucerShip_def newObject_def slowEnv_eq)
  have ns: "newSpawns ambush = []" by (simp add: ambush_def)
  have px: "playerX slowEnv = 0" "playerY slowEnv = 0" "playerZ slowEnv = 0"
    by (simp_all add: slowEnv_eq)
  have m: "sqrt ((0 - 0) * (0 - 0) + (0 + 0.5 - 1) * (0 + 0.5 - 1) + (0 - - 1.2) * (0 - - 1.2))
             = (13 / 10 :: real)"
    by (simp add: real_sqrt_divide)
  from saucer_fire_in_slow_motion [OF h, of "[]"] due
  have n: "newSpawns (processObject slowEnv [] 0 ambush)
             = [enemyBullet slowEnv 0 (move slowEnv (currentObjects ambush ! 0))]"
    and t: "type (enemyBullet slowEnv 0 (move slowEnv (currentObjects ambush ! 0))) = ENEMY_BULLET"
    and v: "velocity (enemyBullet slowEnv 0 (move slowEnv (currentObjects ambush ! 0)))
             = Some (Num 0, Num (- 50 / 13), Num (120 / 13))"
    and l: "sqrt (0\<^sup>2 + (- 50 / 13)\<^sup>2 + (120 / 13)\<^sup>2) = (10 :: real)"
    unfolding Let_def px m ns by simp_all
  with h show ?thesis by simp
qed


subsection \<open>Spawning\<close>

lemma jmin_Num: "jmin a b = Num f \<Longrightarrow> \<exists>a0 b0. a = Num a0 \<and> b = Num b0 \<and> f = min a0 b0"
  by (cases a; cases b) auto

lemma jlt_Num: "jlt a b \<Longrightarrow> \<exists>a0 b0. a = Num a0 \<and> b = Num b0 \<and> a0 < b0"
  by (cases a; cases b) auto

lemma fold_jmin_Num:
  "fold jmin zs z = Num f \<Longrightarrow>
     (\<exists>z0. z = Num z0 \<and> f \<le> z0) \<and> (\<forall>q \<in> set zs. \<exists>q0. q = Num q0 \<and> f \<le> q0)"
proof (induction zs arbitrary: z)
  case Nil
  then show ?case by simp
next
  case (Cons q zs)
  from Cons.prems have "fold jmin zs (jmin q z) = Num f" by simp
  from Cons.IH [OF this] obtain m where
    m: "jmin q z = Num m" "f \<le> m" and rest: "\<forall>r \<in> set zs. \<exists>r0. r = Num r0 \<and> f \<le> r0"
    by blast
  from jmin_Num [OF m(1)] obtain q0 z0 where "q = Num q0" "z = Num z0" "m = min q0 z0"
    by blast
  with m(2) rest show ?case by auto
qed

text \<open>\<open>furthestZ\<close>, when it is a number, is a lower bound of the \<open>z\<close> of every static
  entity kept.\<close>

lemma furthestZ_lower_bound:
  assumes "furthestZ kept = Num f" "k \<in> set kept" "isStatic k"
  shows "\<exists>z. pz k = Num z \<and> f \<le> z"
proof -
  from assms(2,3) have mem: "pz k \<in> set (map pz (filter isStatic kept))" by auto
  then obtain z zs where zs: "map pz (filter isStatic kept) = z # zs"
    by (cases "map pz (filter isStatic kept)") auto
  with assms(1) have "fold jmin zs z = Num f" by (simp add: furthestZ_def)
  from fold_jmin_Num [OF this] mem zs show ?thesis by auto
qed

lemma pz_spawn [simp]:
  "pz (spawnGem R P n z) = z"
  "pz (spawnLetter R P n z av) = z"
  by (simp_all add: spawnGem_def spawnLetter_def newObject_def pz_def Let_def)

lemma pz_spawnAliens: "ob \<in> set (spawnAliens R P n z) \<Longrightarrow> pz ob = z"
  by (auto simp: spawnAliens_def newObject_def pz_def Let_def)

lemma pz_spawnBarrel: "ob \<in> set (spawnBarrel R P n z lanes i) \<Longrightarrow> pz ob = z"
  by (auto simp: spawnBarrel_def newObject_def pz_def Let_def split: if_splits)

lemma pz_spawnBarrels: "ob \<in> set (spawnBarrels R P n z) \<Longrightarrow> pz ob = z"
  by (auto simp: spawnBarrels_def Let_def dest: pz_spawnBarrel)

lemma spawning_guard:
  "\<not> jlt (spawnZ P kept) (furthestZ kept) \<Longrightarrow> spawning R P n tr nl kept = ([], nl, False)"
  by (simp add: spawning_def Let_def)

lemma spawning_pz:
  "ob \<in> set (fst (spawning R P n tr nl kept)) \<Longrightarrow>
     pz ob = spawnZ P kept \<and> jlt (spawnZ P kept) (furthestZ kept)"
  by (auto simp: spawning_def Let_def split: if_splits dest: pz_spawnAliens pz_spawnBarrels)

lemma gem_spawn:
  "spawning gemRandom playing 1 0 150 [hazard]
     = ([spawnGem gemRandom playing 1 (Num (- 12.2))], 150, True)"
  by (simp add: spawning_def Let_def gemRandom_def quietRandom_def furthestZ_def spawnZ_def
        minGap_def isStatic_def hazard_def newObject_def pz_def jgt_def SPAWN_DISTANCE_def)

text \<open>
  C4.  Every entity that the spawning block places in a tick is placed at \<open>spawnZ\<close>, and
  \<open>spawnZ\<close> is then strictly behind \<open>furthestZ\<close> (a smaller \<open>z\<close>, further from the player),
  hence strictly behind every static entity kept: nothing is placed in front of the furthest
  one.  When \<open>spawnZ\<close> is not strictly behind \<open>furthestZ\<close>, the block places nothing and
  changes nothing.  Where the block computes \<open>spawnZ\<close> at all (\<open>furthestZ\<close> is inside the
  horizon) and the speed is not negative, \<open>spawnZ\<close> is strictly behind \<open>furthestZ\<close>.
\<close>

theorem spawn_behind_furthest:
  "(\<forall>ob \<in> set (fst (spawning R P n tr nl kept)).
       pz ob = spawnZ P kept
     \<and> jlt (pz ob) (furthestZ kept)
     \<and> (\<forall>k \<in> set kept. isStatic k \<longrightarrow> jlt (pz ob) (pz k)))
   \<and> (\<not> jlt (spawnZ P kept) (furthestZ kept) \<longrightarrow>
        spawning R P n tr nl kept = ([], nl, False))
   \<and> (jgt (furthestZ kept) (Num (- SPAWN_DISTANCE)) \<and> 0 \<le> speed P \<longrightarrow>
        jlt (spawnZ P kept) (furthestZ kept))"
proof (intro conjI ballI impI)
  assume "jgt (furthestZ kept) (Num (- SPAWN_DISTANCE)) \<and> 0 \<le> speed P"
  then show "jlt (spawnZ P kept) (furthestZ kept)"
    by (cases "furthestZ kept") (simp_all add: spawnZ_def minGap_def jgt_def)
next
  fix ob assume ob: "ob \<in> set (fst (spawning R P n tr nl kept))"
  from spawning_pz [OF ob] show "pz ob = spawnZ P kept" by simp
  from spawning_pz [OF ob] show lt: "jlt (pz ob) (furthestZ kept)" by simp
  fix k assume k: "k \<in> set kept" "isStatic k"
  from jlt_Num [OF lt] obtain a f where af: "pz ob = Num a" "furthestZ kept = Num f" "a < f"
    by blast
  from furthestZ_lower_bound [OF af(2) k] obtain z where "pz k = Num z" "f \<le> z" by blast
  with af show "jlt (pz ob) (pz k)" by simp
next
  assume "\<not> jlt (spawnZ P kept) (furthestZ kept)"
  then show "spawning R P n tr nl kept = ([], nl, False)" by (rule spawning_guard)
qed

theorem spawn_behind_furthest_witness:
  "fst (spawning gemRandom playing 1 0 150 [hazard]) = [spawnGem gemRandom playing 1 (Num (- 12.2))]
   \<and> isStatic hazard \<and> pz hazard = Num (- 5)
   \<and> jlt (pz (spawnGem gemRandom playing 1 (Num (- 12.2)))) (pz hazard)
   \<and> \<not> jlt (spawnZ playing [hazard\<lparr>position := (Num 0, Num 0.8, Num (- 130))\<rparr>])
            (furthestZ [hazard\<lparr>position := (Num 0, Num 0.8, Num (- 130))\<rparr>])
   \<and> spawning gemRandom playing 1 0 150 [hazard\<lparr>position := (Num 0, Num 0.8, Num (- 130))\<rparr>]
       = ([], 150, False)"
proof -
  note A = spawn_behind_furthest [where R = gemRandom and P = playing and n = 1 and tr = 0
             and nl = 150 and kept = "[hazard]"]
  note B = spawn_behind_furthest [where R = gemRandom and P = playing and n = 1 and tr = 0
             and nl = 150 and kept = "[hazard\<lparr>position := (Num 0, Num 0.8, Num (- 130))\<rparr>]"]
  have s: "isStatic hazard" "pz hazard = Num (- 5)"
    by (simp_all add: isStatic_def pz_def hazard_def newObject_def)
  have "spawnGem gemRandom playing 1 (Num (- 12.2)) \<in> set (fst (spawning gemRandom playing 1 0 150 [hazard]))"
    using gem_spawn by simp
  with A s(1) have 1: "jlt (pz (spawnGem gemRandom playing 1 (Num (- 12.2)))) (pz hazard)"
    by auto
  have 2: "\<not> jlt (spawnZ playing [hazard\<lparr>position := (Num 0, Num 0.8, Num (- 130))\<rparr>])
            (furthestZ [hazard\<lparr>position := (Num 0, Num 0.8, Num (- 130))\<rparr>])"
    by (simp add: furthestZ_def spawnZ_def minGap_def isStatic_def hazard_def newObject_def
          pz_def SPAWN_DISTANCE_def)
  with B have 3: "spawning gemRandom playing 1 0 150
                    [hazard\<lparr>position := (Num 0, Num 0.8, Num (- 130))\<rparr>] = ([], 150, False)"
    by blast
  from 1 2 3 s gem_spawn show ?thesis by simp
qed

end
